theory Spec2Isabelle
  imports Main
begin

section \<open>Documents\<close>

text \<open>
  The transformer works on the trees the YAML loader returns. A document is modelled as
  a value of \<open>yval\<close>: null, a boolean, an integer, a string, a sequence, or a mapping with
  string keys in insertion order (a Python \<open>dict\<close>; the keys of a mapping built by the
  loader are distinct). Floats, timestamps and non-string keys do not occur in the
  manifests the tool is written for and are not part of the model. Strings are byte
  strings; \<open>lower\<close> folds the ASCII letters.

  An exception is a value: every function that can raise returns \<open>error + 'a\<close>, and
  \<open>ebind\<close> sequences two steps, stopping at the first raise.
\<close>

datatype yval =
    YNull
  | YBool bool
  | YInt int
  | YStr string
  | YList "yval list"
  | YMap "(string \<times> yval) list"

datatype error = AttributeError | TypeError | ValueError | KeyError

definition ebind :: "error + 'a \<Rightarrow> ('a \<Rightarrow> error + 'b) \<Rightarrow> error + 'b" where
  "ebind m f = (case m of Inl e \<Rightarrow> Inl e | Inr x \<Rightarrow> f x)"

text \<open>Python truth value testing: \<open>None\<close>, \<open>False\<close>, \<open>0\<close>, \<open>""\<close>, \<open>[]\<close> and \<open>{}\<close> are false.\<close>

fun truthy :: "yval \<Rightarrow> bool" where
  "truthy YNull = False"
| "truthy (YBool b) = b"
| "truthy (YInt i) = (i \<noteq> 0)"
| "truthy (YStr s) = (s \<noteq> [])"
| "truthy (YList xs) = (xs \<noteq> [])"
| "truthy (YMap kvs) = (kvs \<noteq> [])"

text \<open>\<open>a or b\<close> on values.\<close>

definition py_or :: "yval \<Rightarrow> yval \<Rightarrow> yval" where
  "py_or a b = (if truthy a then a else b)"

text \<open>
  \<open>d.get(k, dflt)\<close> on the entries of a dict, and on any value: only a dict has \<open>get\<close>,
  anything else raises AttributeError.
\<close>

definition lookup :: "(string \<times> 'v) list \<Rightarrow> string \<Rightarrow> 'v \<Rightarrow> 'v" where
  "lookup kvs k dflt = (case map_of kvs k of Some v \<Rightarrow> v | None \<Rightarrow> dflt)"

definition py_get :: "yval \<Rightarrow> string \<Rightarrow> yval \<Rightarrow> error + yval" where
  "py_get d k dflt = (case d of YMap kvs \<Rightarrow> Inr (lookup kvs k dflt) | _ \<Rightarrow> Inl AttributeError)"

text \<open>\<open>d.items()\<close>: again only a dict has it.\<close>

definition py_items :: "yval \<Rightarrow> error + (string \<times> yval) list" where
  "py_items d = (case d of YMap kvs \<Rightarrow> Inr kvs | _ \<Rightarrow> Inl AttributeError)"

text \<open>
  Iteration (\<open>for c in v\<close>): the elements of a list, the keys of a dict, the characters
  of a string; the other values are not iterable.
\<close>

definition py_iter :: "yval \<Rightarrow> error + yval list" where
  "py_iter v =
     (case v of
        YList xs \<Rightarrow> Inr xs
      | YMap kvs \<Rightarrow> Inr (map (\<lambda>kv. YStr (fst kv)) kvs)
      | YStr s \<Rightarrow> Inr (map (\<lambda>c. YStr [c]) s)
      | _ \<Rightarrow> Inl TypeError)"

text \<open>\<open>d[k] = v\<close>: an existing key keeps its position, a new key goes last.\<close>

fun set_item :: "(string \<times> 'v) list \<Rightarrow> string \<Rightarrow> 'v \<Rightarrow> (string \<times> 'v) list" where
  "set_item [] k v = [(k, v)]"
| "set_item ((k', v') # kvs) k v =
     (if k' = k then (k, v) # kvs else (k', v') # set_item kvs k v)"

text \<open>\<open>d.pop(k, None)\<close>, the popped value dropped.\<close>

definition pop_item :: "(string \<times> 'v) list \<Rightarrow> string \<Rightarrow> (string \<times> 'v) list" where
  "pop_item kvs k = filter (\<lambda>kv. fst kv \<noteq> k) kvs"

text \<open>\<open>d.setdefault(k, v)\<close>, the returned value dropped.\<close>

definition setdefault :: "(string \<times> 'v) list \<Rightarrow> string \<Rightarrow> 'v \<Rightarrow> (string \<times> 'v) list" where
  "setdefault kvs k v = (case map_of kvs k of None \<Rightarrow> kvs @ [(k, v)] | Some _ \<Rightarrow> kvs)"

subsection \<open>Strings\<close>

definition startswith :: "string \<Rightarrow> string \<Rightarrow> bool" where
  "startswith s p = (take (length p) s = p)"

text \<open>\<open>p in s\<close> for two strings: \<open>p\<close> occurs in \<open>s\<close> as a substring.\<close>

fun substr_in :: "string \<Rightarrow> string \<Rightarrow> bool" where
  "substr_in p [] = (p = [])"
| "substr_in p (c # s) = (startswith (c # s) p \<or> substr_in p s)"

definition lower_char :: "char \<Rightarrow> char" where
  "lower_char c =
     (case map_of (zip ''ABCDEFGHIJKLMNOPQRSTUVWXYZ'' ''abcdefghijklmnopqrstuvwxyz'') c of
        Some d \<Rightarrow> d
      | None \<Rightarrow> c)"

definition lower :: "string \<Rightarrow> string" where
  "lower s = map lower_char s"

text \<open>\<open>v.lower()\<close> on a value: only a string has it.\<close>

definition py_lower :: "yval \<Rightarrow> error + string" where
  "py_lower v = (case v of YStr s \<Rightarrow> Inr (lower s) | _ \<Rightarrow> Inl AttributeError)"

text \<open>
  \<open>p in v\<close> for a string \<open>p\<close> and any value \<open>v\<close>: substring in a string, element of a list,
  key of a dict; the other values are not iterable (TypeError).
\<close>

definition py_in :: "string \<Rightarrow> yval \<Rightarrow> error + bool" where
  "py_in p v =
     (case v of
        YStr s \<Rightarrow> Inr (substr_in p s)
      | YList xs \<Rightarrow> Inr (YStr p \<in> set xs)
      | YMap kvs \<Rightarrow> Inr (p \<in> set (map fst kvs))
      | _ \<Rightarrow> Inl TypeError)"

text \<open>
  A value inside an f-string. A string is inserted as it is; for any other value Python
  calls the built-in \<open>str\<close>, which is not code of the tool: it is the parameter \<open>fmt\<close> of
  every function that formats a value.
\<close>

definition fstr :: "(yval \<Rightarrow> string) \<Rightarrow> yval \<Rightarrow> string" where
  "fstr fmt v = (case v of YStr s \<Rightarrow> s | _ \<Rightarrow> fmt v)"

subsection \<open>File names\<close>

text \<open>
  \<open>pathlib\<close> on the last component of a path. \<open>PurePath.suffix\<close> is the name from its last
  dot on, when that dot is neither the first nor the last character; \<open>with_suffix\<close>
  replaces it (or appends, when there is none) and raises ValueError on an empty name
  or on a suffix that does not start with a dot, is a lone dot, or holds a separator.
\<close>

fun rfind :: "char \<Rightarrow> string \<Rightarrow> nat option" where
  "rfind c [] = None"
| "rfind c (x # xs) =
     (case rfind c xs of
        Some i \<Rightarrow> Some (Suc i)
      | None \<Rightarrow> if x = c then Some 0 else None)"

definition path_suffix :: "string \<Rightarrow> string" where
  "path_suffix name =
     (case rfind (CHR ''.'') name of
        None \<Rightarrow> []
      | Some i \<Rightarrow> if 0 < i \<and> i < length name - 1 then drop i name else [])"

definition with_suffix :: "string \<Rightarrow> string \<Rightarrow> error + string" where
  "with_suffix name suf =
     (if CHR ''/'' \<in> set suf \<or> (suf \<noteq> [] \<and> \<not> startswith suf ''.'') \<or> suf = ''.''
        then Inl ValueError
      else if name = [] then Inl ValueError
      else let old_suffix = path_suffix name in
        Inr (if old_suffix = [] then name @ suf
             else take (length name - length old_suffix) name @ suf))"

definition is_yaml_file :: "string \<Rightarrow> bool" where
  "is_yaml_file name = (lower (path_suffix name) \<in> set [''.yml'', ''.yaml''])"

section \<open>Helpers\<close>

text \<open>\<open>norm_labels\<close>: \<open>meta = meta or {}\<close>, then \<open>meta.setdefault("labels", {})\<close>.\<close>

definition norm_labels :: "yval \<Rightarrow> error + yval" where
  "norm_labels meta =
     (case py_or meta (YMap []) of
        YMap kvs \<Rightarrow> Inr (YMap (setdefault kvs ''labels'' (YMap [])))
      | _ \<Rightarrow> Inl AttributeError)"

text \<open>
  The test of line 88, \<open>image and ("/" in image or "." in image) and ":" in image\<close>, with
  Python's left-to-right short-circuit evaluation.
\<close>

definition looks_qualified :: "yval \<Rightarrow> error + bool" where
  "looks_qualified img =
     (if \<not> truthy img then Inr False
      else ebind (py_in ''/'' img) (\<lambda>a.
           ebind (if a then Inr True else py_in ''.'' img) (\<lambda>b.
           if b then py_in '':'' img else Inr False)))"

definition map_image ::
  "(yval \<Rightarrow> string) \<Rightarrow> yval \<Rightarrow> yval \<Rightarrow> string \<Rightarrow> string \<Rightarrow> error + yval" where
  "map_image fmt image0 name_hint image_registry repo_prefix =
     (let img = py_or image0 (YStr '''') in
      ebind (looks_qualified img) (\<lambda>q.
        if q then Inr img
        else if image_registry \<noteq> [] \<and> substr_in '':'' image_registry
          then Inr (YStr image_registry)
        else
          let repo = (if repo_prefix \<noteq> [] then repo_prefix @ ''/'' @ fstr fmt name_hint
                      else fstr fmt name_hint)
          in if image_registry \<noteq> []
               then Inr (YStr (image_registry @ ''/'' @ repo @ '':latest''))
             else Inr (py_or img (YStr (repo @ '':latest'')))))"

section \<open>Converters\<close>

text \<open>
  \<open>deepcopy\<close> is the identity on values: a copy has the same content, and the value model
  has no object identities (they are the subject of the section on object identities
  below). The \<open>print\<close> calls write to the console only and are left out.

  The comprehension \<open>{k: v for k, v in (anns or {}).items() if not
  k.startswith("openshift.io/")}\<close> occurs three times (lines 131-134, 142-145 and
  324-325); it is \<open>drop_openshift\<close>.
\<close>

definition drop_openshift :: "yval \<Rightarrow> error + (string \<times> yval) list" where
  "drop_openshift anns =
     ebind (py_items (py_or anns (YMap []))) (\<lambda>kvs.
       Inr (filter (\<lambda>kv. \<not> startswith (fst kv) ''openshift.io/'') kvs))"

text \<open>Lines 154-166 of \<open>to_deployment\<close>: the strategy, from the copied spec.\<close>

definition strategy_of :: "yval \<Rightarrow> error + yval" where
  "strategy_of spec =
     ebind (py_get spec ''strategy'' (YMap [])) (\<lambda>st0.
     let st = py_or st0 (YMap []) in
     ebind (py_get st ''type'' YNull) (\<lambda>ty.
     ebind (py_lower (py_or ty (YStr ''Rolling''))) (\<lambda>st_type.
       if startswith st_type ''recreate'' then Inr (YMap [(''type'', YStr ''Recreate'')])
       else
         ebind (py_get st ''rollingParams'' YNull) (\<lambda>p0.
         let params = py_or p0 (YMap []) in
         ebind (py_get params ''maxSurge'' (YStr ''25%'')) (\<lambda>max_surge.
         ebind (py_get params ''maxUnavailable'' (YStr ''25%'')) (\<lambda>max_unavailable.
           Inr (YMap [(''type'', YStr ''RollingUpdate''),
                      (''rollingUpdate'', YMap [(''maxSurge'', max_surge),
                                                (''maxUnavailable'', max_unavailable)])])))))))"

text \<open>
  Lines 173-183: the loop over the containers. Its body updates the container \<open>c\<close> in
  place; the model returns the updated container.
\<close>

definition convert_container ::
  "(yval \<Rightarrow> string) \<Rightarrow> yval \<Rightarrow> string \<Rightarrow> string \<Rightarrow> yval \<Rightarrow> error + yval" where
  "convert_container fmt name image_registry repo_prefix c =
     (case c of
        YMap kvs \<Rightarrow>
          ebind (map_image fmt (lookup kvs ''image'' (YStr '''')) (lookup kvs ''name'' name)
                   image_registry repo_prefix) (\<lambda>img.
          let kvs1 = set_item kvs ''image'' img in
          Inr (YMap (if \<not> truthy (lookup kvs1 ''imagePullPolicy'' YNull)
                     then set_item kvs1 ''imagePullPolicy'' (YStr ''IfNotPresent'')
                     else kvs1)))
      | _ \<Rightarrow> Inl AttributeError)"

fun each_container ::
  "(yval \<Rightarrow> string) \<Rightarrow> yval \<Rightarrow> string \<Rightarrow> string \<Rightarrow> yval list \<Rightarrow> error + yval list" where
  "each_container fmt name image_registry repo_prefix [] = Inr []"
| "each_container fmt name image_registry repo_prefix (c # cs) =
     ebind (convert_container fmt name image_registry repo_prefix c) (\<lambda>c'.
     ebind (each_container fmt name image_registry repo_prefix cs) (\<lambda>cs'.
       Inr (c' # cs')))"

text \<open>
  The pod spec after the loop. Only a list under the key \<open>containers\<close> holds dicts the
  loop can update (the elements of any other iterable are strings, on which \<open>c.get\<close>
  raises); the updated list stays where it was in the pod spec.
\<close>

definition convert_containers ::
  "(yval \<Rightarrow> string) \<Rightarrow> yval \<Rightarrow> string \<Rightarrow> string \<Rightarrow> yval \<Rightarrow> error + yval" where
  "convert_containers fmt name image_registry repo_prefix tpl_spec =
     ebind (py_get tpl_spec ''containers'' (YList [])) (\<lambda>containers.
     ebind (py_iter containers) (\<lambda>cs.
     ebind (each_container fmt name image_registry repo_prefix cs) (\<lambda>cs'.
       Inr (case (tpl_spec, containers) of
              (YMap kvs, YList _) \<Rightarrow>
                if map_of kvs ''containers'' = None then tpl_spec
                else YMap (set_item kvs ''containers'' (YList cs'))
            | _ \<Rightarrow> tpl_spec))))"

text \<open>
  \<open>to_deployment\<close>, in the order of the source: the reads of lines 109-121, the dict of
  lines 125-151, the strategy, the three \<open>pop\<close>s of lines 169-170 (on the entries of the
  new spec), and the container loop, whose in-place updates show in the pod spec of the
  result.
\<close>

definition to_deployment ::
  "(yval \<Rightarrow> string) \<Rightarrow> yval \<Rightarrow> string \<Rightarrow> string \<Rightarrow> error + yval" where
  "to_deployment fmt dc image_registry repo_prefix =
     ebind (py_get dc ''metadata'' (YMap [])) (\<lambda>meta0.
     ebind (py_get dc ''spec'' (YMap [])) (\<lambda>spec.
     ebind (py_get meta0 ''name'' (YStr ''app'')) (\<lambda>name.
     ebind (norm_labels meta0) (\<lambda>meta.
     ebind (py_get spec ''template'' (YMap [])) (\<lambda>t0.
     let template = py_or t0 (YMap []) in
     ebind (py_get template ''metadata'' (YMap [])) (\<lambda>tm0.
     ebind (norm_labels (py_or tm0 (YMap []))) (\<lambda>tpl_meta.
     ebind (py_get template ''spec'' (YMap [])) (\<lambda>ts0.
     let tpl_spec = py_or ts0 (YMap []) in
     ebind (py_get tpl_meta ''labels'' YNull) (\<lambda>tpl_labels.
     ebind (py_get meta ''labels'' YNull) (\<lambda>meta_labels.
     let labels = py_or (py_or tpl_labels meta_labels) (YMap [(''app'', name)]);
         selector_labels = labels;
         template_labels = labels in
     ebind (py_get meta ''annotations'' YNull) (\<lambda>a0.
     ebind (drop_openshift a0) (\<lambda>annotations.
     ebind (py_get spec ''replicas'' (YInt 1)) (\<lambda>replicas.
     ebind (py_get tpl_meta ''annotations'' YNull) (\<lambda>ta0.
     ebind (drop_openshift ta0) (\<lambda>tpl_annotations.
     ebind (strategy_of spec) (\<lambda>strategy.
     ebind (convert_containers fmt name image_registry repo_prefix tpl_spec) (\<lambda>tpl_spec'.
       Inr (YMap
         [(''apiVersion'', YStr ''apps/v1''),
          (''kind'', YStr ''Deployment''),
          (''metadata'', YMap [(''name'', name),
                               (''labels'', labels),
                               (''annotations'', YMap annotations)]),
          (''spec'', YMap (fold (\<lambda>fld kvs. pop_item kvs fld) [''triggers'', ''test'', ''paused'']
             [(''replicas'', replicas),
              (''selector'', YMap [(''matchLabels'', selector_labels)]),
              (''template'', YMap [(''metadata'', YMap [(''labels'', template_labels),
                                                       (''annotations'', YMap tpl_annotations)]),
                                   (''spec'', tpl_spec')]),
              (''strategy'', strategy)]))]))))))))))))))))))"

text \<open>
  Lines 220-223 of \<open>to_ingress\<close>: a string port is a named port, anything else goes
  through \<open>int\<close> (a boolean is an integer in Python; a list or a dict raises TypeError).
\<close>

definition port_ref :: "yval \<Rightarrow> error + yval" where
  "port_ref target_port =
     (case target_port of
        YStr s \<Rightarrow> Inr (YMap [(''name'', YStr s)])
      | YInt i \<Rightarrow> Inr (YMap [(''number'', YInt i)])
      | YBool b \<Rightarrow> Inr (YMap [(''number'', YInt (if b then 1 else 0))])
      | _ \<Rightarrow> Inl TypeError)"

definition tls_entry :: "yval \<Rightarrow> string \<Rightarrow> yval" where
  "tls_entry host secret = YMap [(''hosts'', YList [host]), (''secretName'', YStr secret)]"

definition to_ingress ::
  "(yval \<Rightarrow> string) \<Rightarrow> yval \<Rightarrow> string \<Rightarrow> string \<Rightarrow> string \<Rightarrow> error + yval" where
  "to_ingress fmt route default_domain ingress_class tls_secret =
     ebind (py_get route ''metadata'' (YMap [])) (\<lambda>meta.
     ebind (py_get route ''spec'' (YMap [])) (\<lambda>s0.
     let spec = py_or s0 (YMap []) in
     ebind (py_get meta ''name'' (YStr ''web'')) (\<lambda>name.
     ebind (py_get spec ''host'' YNull) (\<lambda>h0.
     let host = py_or h0 (YStr (fstr fmt name @ ''.'' @ default_domain)) in
     ebind (py_get spec ''to'' YNull) (\<lambda>t0.
     let to_ref = py_or t0 (YMap []) in
     ebind (py_get to_ref ''name'' YNull) (\<lambda>n0.
     let svc_name = py_or n0 name in
     ebind (py_get spec ''port'' YNull) (\<lambda>p0.
     ebind (py_get (py_or p0 (YMap [])) ''targetPort'' YNull) (\<lambda>tp0.
     let target_port = py_or tp0 (YInt 80) in
     ebind (py_get meta ''labels'' YNull) (\<lambda>l0.
     ebind (py_items (py_or l0 (YMap []))) (\<lambda>labels.
     ebind (port_ref target_port) (\<lambda>port.
     ebind (py_get spec ''tls'' YNull) (\<lambda>tls.
     let rules = [(''rules'', YList [YMap
           [(''host'', host),
            (''http'', YMap [(''paths'', YList [YMap
               [(''path'', YStr ''/''),
                (''pathType'', YStr ''Prefix''),
                (''backend'', YMap [(''service'',
                   YMap [(''name'', svc_name), (''port'', port)])])]])])]])];
         tls_entries =
           (if tls_secret \<noteq> [] then [tls_entry host tls_secret]
            else if truthy tls then [tls_entry host (fstr fmt name @ ''-tls'')]
            else [])
     in Inr (YMap
         [(''apiVersion'', YStr ''networking.k8s.io/v1''),
          (''kind'', YStr ''Ingress''),
          (''metadata'', YMap [(''name'', name),
                               (''labels'', YMap labels),
                               (''annotations'',
                                  YMap [(''kubernetes.io/ingress.class'', YStr ingress_class)])]),
          (''spec'', YMap (if tls_entries \<noteq> [] then set_item rules ''tls'' (YList tls_entries)
                           else rules))])))))))))))))"

section \<open>File naming\<close>

text \<open>
  \<open>map_output_filename\<close> on the name of the source path (the caller reads only the name
  of the path it returns). The set comprehension of line 253 hashes every kind it
  collects, so a kind that is a list or a dict raises TypeError. The \<open>mappings\<close> dict is
  walked in insertion order and the first match returns.
\<close>

fun hashable :: "yval \<Rightarrow> bool" where
  "hashable (YList xs) = False"
| "hashable (YMap kvs) = False"
| "hashable v = True"

fun doc_kinds :: "yval list \<Rightarrow> yval list" where
  "doc_kinds [] = []"
| "doc_kinds (YMap kvs # ds) = lookup kvs ''kind'' YNull # doc_kinds ds"
| "doc_kinds (d # ds) = doc_kinds ds"

definition kinds_in_output :: "yval list \<Rightarrow> error + yval list" where
  "kinds_in_output out_docs =
     (if list_all hashable (doc_kinds out_docs) then Inr (doc_kinds out_docs)
      else Inl TypeError)"

definition mappings :: "((string \<times> string) \<times> string) list" where
  "mappings = [((''DeploymentConfig'', ''deploymentconfig''), ''deployment.yaml''),
               ((''Route'', ''route''), ''ingress.yaml'')]"

fun first_mapping ::
  "string \<Rightarrow> yval list \<Rightarrow> ((string \<times> string) \<times> string) list \<Rightarrow> string option" where
  "first_mapping name_lower kinds [] = None"
| "first_mapping name_lower kinds (((kind, pattern), new_name) # ms) =
     (if substr_in pattern name_lower \<or> YStr kind \<in> set kinds then Some new_name
      else first_mapping name_lower kinds ms)"

definition map_output_filename :: "string \<Rightarrow> yval list \<Rightarrow> error + string" where
  "map_output_filename name out_docs =
     ebind (kinds_in_output out_docs) (\<lambda>kinds.
       Inr (case first_mapping (lower name) kinds mappings of
              Some new_name \<Rightarrow> new_name
            | None \<Rightarrow> name))"

section \<open>Main transform loop\<close>

text \<open>
  The options of the command line are strings. A directory entry is modelled by what the
  loop reads of it: the text of its path, its name, whether it is a file, and the
  outcome of \<open>list(yaml.safe_load_all(path.read_text()))\<close>: the documents, or the text
  of the exception the \<open>try\<close> of lines 290-294 catches. The state of the run is the
  \<open>summary\<close> counters, \<open>converted\<close>, the \<open>warnings\<close>, and the files written so far (the
  name under the output directory and the documents dumped into it, in the order of
  the writes). An exception of a converter is not caught by \<open>main\<close>: the run ends with
  it. Failures of the file system while writing are outside the model.
\<close>

record args =
  opt_image_registry :: string
  opt_repo_prefix :: string
  opt_default_domain :: string
  opt_ingress_class :: string
  opt_tls_secret :: string

record entry =
  path_text :: string
  path_name :: string
  is_file :: bool
  loaded :: "string + yval list"

record run =
  n_DeploymentConfig :: nat
  n_Route :: nat
  n_BuildConfig :: nat
  n_Other :: nat
  converted :: nat
  warnings :: "string list"
  written :: "(string \<times> yval list) list"

text \<open>
  Lines 323-330: the pass-through of a document of any other kind, as a value. The code
  updates the dict \<open>doc["metadata"]\<close> in place; the value below is the content of the
  document after the update when that dict is reachable from the document in one way
  only. The update of an object that YAML aliases make reachable in several ways is
  \<open>pass_through_t\<close> in the section on object identities, and \<open>pass_through_t_erase\<close>
  proves that the two agree on a document without such an alias.
\<close>

definition pass_through :: "yval \<Rightarrow> error + yval" where
  "pass_through doc =
     (case doc of
        YMap kvs \<Rightarrow>
          (case lookup kvs ''metadata'' YNull of
             YMap m \<Rightarrow>
               ebind (drop_openshift (lookup m ''annotations'' YNull)) (\<lambda>anns.
                 Inr (YMap (set_item kvs ''metadata''
                   (YMap (if anns \<noteq> [] then set_item m ''annotations'' (YMap anns)
                          else pop_item m ''annotations'')))))
           | _ \<Rightarrow> Inr doc)
      | _ \<Rightarrow> Inr doc)"

definition buildconfig_warning :: "(yval \<Rightarrow> string) \<Rightarrow> args \<Rightarrow> yval \<Rightarrow> string" where
  "buildconfig_warning fmt a nm =
     ''BuildConfig '' @ [CHR 0x27] @ fstr fmt nm @ [CHR 0x27] @ '' skipped: ''
     @ ''move builds to CI (e.g., GitHub Actions) and push images to ''
     @ (if opt_image_registry a \<noteq> [] then opt_image_registry a else ''ACR'') @ ''.''"

text \<open>The body of the loop over the documents of one file (lines 298-330).\<close>

definition dispatch ::
  "(yval \<Rightarrow> string) \<Rightarrow> args \<Rightarrow> run \<times> yval list \<Rightarrow> yval \<Rightarrow> error + run \<times> yval list" where
  "dispatch fmt a acc doc =
     (let st = fst acc; out_docs = snd acc in
      case doc of
        YMap kvs \<Rightarrow>
          (case map_of kvs ''kind'' of
             None \<Rightarrow> Inr (st, out_docs)
           | Some kind \<Rightarrow>
               if kind = YStr ''DeploymentConfig'' then
                 ebind (to_deployment fmt doc (opt_image_registry a) (opt_repo_prefix a)) (\<lambda>d.
                   Inr (st\<lparr>n_DeploymentConfig := n_DeploymentConfig st + 1,
                            converted := converted st + 1\<rparr>, out_docs @ [d]))
               else if kind = YStr ''Route'' then
                 ebind (to_ingress fmt doc (opt_default_domain a) (opt_ingress_class a) (opt_tls_secret a))
                   (\<lambda>d.
                   Inr (st\<lparr>n_Route := n_Route st + 1,
                            converted := converted st + 1\<rparr>, out_docs @ [d]))
               else if kind = YStr ''BuildConfig'' then
                 ebind (py_get doc ''metadata'' (YMap [])) (\<lambda>meta.
                 ebind (py_get meta ''name'' (YStr ''unnamed'')) (\<lambda>nm.
                   Inr (st\<lparr>n_BuildConfig := n_BuildConfig st + 1,
                            warnings := warnings st @ [buildconfig_warning fmt a nm]\<rparr>,
                        out_docs)))
               else
                 ebind (pass_through doc) (\<lambda>d.
                   Inr (st\<lparr>n_Other := n_Other st + 1\<rparr>, out_docs @ [d])))
      | _ \<Rightarrow> Inr (st, out_docs))"

fun dispatch_all ::
  "(yval \<Rightarrow> string) \<Rightarrow> args \<Rightarrow> run \<times> yval list \<Rightarrow> yval list \<Rightarrow> error + run \<times> yval list" where
  "dispatch_all fmt a acc [] = Inr acc"
| "dispatch_all fmt a acc (doc # docs) =
     ebind (dispatch fmt a acc doc) (\<lambda>acc'. dispatch_all fmt a acc' docs)"

text \<open>The body of the loop over the directory entries (lines 287-342).\<close>

definition process_file :: "(yval \<Rightarrow> string) \<Rightarrow> args \<Rightarrow> run \<Rightarrow> entry \<Rightarrow> error + run" where
  "process_file fmt a st e =
     (if \<not> is_file e \<or> \<not> is_yaml_file (path_name e) then Inr st
      else case loaded e of
        Inl msg \<Rightarrow>
          Inr (st\<lparr>warnings := warnings st @ [''Failed to parse '' @ path_text e @ '': '' @ msg]\<rparr>)
      | Inr docs \<Rightarrow>
          ebind (dispatch_all fmt a (st, []) docs) (\<lambda>r.
            if snd r \<noteq> [] then
              ebind (map_output_filename (path_name e) (snd r)) (\<lambda>mapped.
              ebind (with_suffix mapped ''.yaml'') (\<lambda>dest.
                Inr ((fst r)\<lparr>written := written (fst r) @ [(dest, snd r)]\<rparr>)))
            else Inr (fst r)))"

fun process_files :: "(yval \<Rightarrow> string) \<Rightarrow> args \<Rightarrow> run \<Rightarrow> entry list \<Rightarrow> error + run" where
  "process_files fmt a st [] = Inr st"
| "process_files fmt a st (e # es) =
     ebind (process_file fmt a st e) (\<lambda>st'. process_files fmt a st' es)"

definition initial :: run where
  "initial = \<lparr>n_DeploymentConfig = 0, n_Route = 0, n_BuildConfig = 0, n_Other = 0,
              converted = 0, warnings = [], written = []\<rparr>"

definition main :: "(yval \<Rightarrow> string) \<Rightarrow> args \<Rightarrow> entry list \<Rightarrow> error + run" where
  "main fmt a entries = process_files fmt a initial entries"

section \<open>Object identities\<close>

text \<open>
  Whether two maps of the output are independent copies is a question about objects, not
  about content. For it a list or a dict carries the identity of its object (a number),
  so that an object reachable by two ways shows the same identity twice; \<open>erase\<close>
  forgets the identities and \<open>ids\<close> collects them. Scalars are immutable and have none.
  A document is a finite tree, so that an object does not contain itself.

  Creating an object takes the next unused identity: a computation that allocates is a
  function of the counter (\<open>alloc\<close>), which returns the counter it leaves behind. Only
  the distinctness of identities matters, not the order in which they are handed out.
\<close>

datatype tval =
    TNull
  | TBool bool
  | TInt int
  | TStr string
  | TList nat "tval list"
  | TMap nat "(string \<times> tval) list"

fun erase :: "tval \<Rightarrow> yval" where
  "erase TNull = YNull"
| "erase (TBool b) = YBool b"
| "erase (TInt i) = YInt i"
| "erase (TStr s) = YStr s"
| "erase (TList a xs) = YList (map erase xs)"
| "erase (TMap a kvs) = YMap (map (\<lambda>kv. (fst kv, erase (snd kv))) kvs)"

fun ids :: "tval \<Rightarrow> nat set" where
  "ids (TList a xs) = insert a (\<Union>x\<in>set xs. ids x)"
| "ids (TMap a kvs) = insert a (\<Union>kv\<in>set kvs. ids (snd kv))"
| "ids v = {}"

text \<open>
  The objects of a value, and the invariant of a tree that stands for an object graph:
  two of its objects with the same identity are the same subtree.
\<close>

fun nodes :: "tval \<Rightarrow> tval set" where
  "nodes (TList a xs) = insert (TList a xs) (\<Union>x\<in>set xs. nodes x)"
| "nodes (TMap a kvs) = insert (TMap a kvs) (\<Union>kv\<in>set kvs. nodes (snd kv))"
| "nodes v = {}"

fun oid :: "tval \<Rightarrow> nat option" where
  "oid (TList a xs) = Some a"
| "oid (TMap a kvs) = Some a"
| "oid v = None"

definition consistent_on :: "tval set \<Rightarrow> bool" where
  "consistent_on S \<longleftrightarrow> (\<forall>x y. x \<in> S \<longrightarrow> y \<in> S \<longrightarrow> oid x = oid y \<longrightarrow> x = y)"

definition consistent :: "tval \<Rightarrow> bool" where
  "consistent v \<longleftrightarrow> consistent_on (nodes v)"

text \<open>
  An update in place of the object \<open>a\<close>: every occurrence of the object in a value gets
  the new entries (\<open>g\<close> maps the old entries of a dict to the new ones).
\<close>

fun update_obj :: "nat \<Rightarrow> ((string \<times> tval) list \<Rightarrow> (string \<times> tval) list) \<Rightarrow> tval \<Rightarrow> tval" where
  "update_obj a g (TList b xs) = TList b (map (update_obj a g) xs)"
| "update_obj a g (TMap b kvs) =
     (if a = b then TMap b (g kvs)
      else TMap b (map (\<lambda>kv. (fst kv, update_obj a g (snd kv))) kvs))"
| "update_obj a g v = v"

text \<open>
  \<open>copy.deepcopy\<close>: a scalar is returned as it is; a list or a dict that the memo already
  knows is answered from the memo, so that sharing inside the copied value is kept; any
  other gets a new object with the copies of its elements, which the memo then records.
\<close>

fun deepcopy :: "nat \<Rightarrow> (nat \<times> tval) list \<Rightarrow> tval \<Rightarrow> (nat \<times> (nat \<times> tval) list) \<times> tval"
  and deepcopy_list ::
    "nat \<Rightarrow> (nat \<times> tval) list \<Rightarrow> tval list \<Rightarrow> (nat \<times> (nat \<times> tval) list) \<times> tval list"
  and deepcopy_items ::
    "nat \<Rightarrow> (nat \<times> tval) list \<Rightarrow> (string \<times> tval) list
       \<Rightarrow> (nat \<times> (nat \<times> tval) list) \<times> (string \<times> tval) list"
where
  "deepcopy n memo (TList a xs) =
     (case map_of memo a of
        Some y \<Rightarrow> ((n, memo), y)
      | None \<Rightarrow>
          (case deepcopy_list (Suc n) memo xs of
             ((n', memo'), ys) \<Rightarrow> ((n', (a, TList n ys) # memo'), TList n ys)))"
| "deepcopy n memo (TMap a kvs) =
     (case map_of memo a of
        Some y \<Rightarrow> ((n, memo), y)
      | None \<Rightarrow>
          (case deepcopy_items (Suc n) memo kvs of
             ((n', memo'), kvs') \<Rightarrow> ((n', (a, TMap n kvs') # memo'), TMap n kvs')))"
| "deepcopy n memo v = ((n, memo), v)"
| "deepcopy_list n memo [] = ((n, memo), [])"
| "deepcopy_list n memo (x # xs) =
     (case deepcopy n memo x of
        ((n1, memo1), y) \<Rightarrow>
          (case deepcopy_list n1 memo1 xs of
             ((n2, memo2), ys) \<Rightarrow> ((n2, memo2), y # ys)))"
| "deepcopy_items n memo [] = ((n, memo), [])"
| "deepcopy_items n memo (kv # kvs) =
     (case deepcopy n memo (snd kv) of
        ((n1, memo1), y) \<Rightarrow>
          (case deepcopy_items n1 memo1 kvs of
             ((n2, memo2), kvs') \<Rightarrow> ((n2, memo2), (fst kv, y) # kvs')))"

type_synonym 'a alloc = "nat \<Rightarrow> error + 'a \<times> nat"

definition aret :: "'a \<Rightarrow> 'a alloc" where
  "aret x n = Inr (x, n)"

definition araise :: "error \<Rightarrow> 'a alloc" where
  "araise e n = Inl e"

definition abind :: "'a alloc \<Rightarrow> ('a \<Rightarrow> 'b alloc) \<Rightarrow> 'b alloc" where
  "abind m f n = (case m n of Inl e \<Rightarrow> Inl e | Inr r \<Rightarrow> f (fst r) (snd r))"

definition alift :: "error + 'a \<Rightarrow> 'a alloc" where
  "alift r n = (case r of Inl e \<Rightarrow> Inl e | Inr x \<Rightarrow> Inr (x, n))"

definition new_dict :: "(string \<times> tval) list \<Rightarrow> tval alloc" where
  "new_dict kvs n = Inr (TMap n kvs, Suc n)"

definition new_list :: "tval list \<Rightarrow> tval alloc" where
  "new_list xs n = Inr (TList n xs, Suc n)"

text \<open>A call \<open>deepcopy(v)\<close>: the memo starts empty.\<close>

definition copy_deepcopy :: "tval \<Rightarrow> tval alloc" where
  "copy_deepcopy v n = (case deepcopy n [] v of ((n', memo'), v') \<Rightarrow> Inr (v', n'))"

text \<open>
  The operations on documents again, now keeping identities. What an operation tests
  depends on content only, so the tests are those of the value model on \<open>erase\<close>.
  \<open>v or {}\<close> and \<open>d.get(k, {})\<close> create the empty dict they may return.
\<close>

definition t_or :: "tval \<Rightarrow> tval \<Rightarrow> tval" where
  "t_or a b = (if truthy (erase a) then a else b)"

definition t_get :: "tval \<Rightarrow> string \<Rightarrow> tval \<Rightarrow> error + tval" where
  "t_get d k dflt = (case d of TMap a kvs \<Rightarrow> Inr (lookup kvs k dflt) | _ \<Rightarrow> Inl AttributeError)"

definition t_or_new_dict :: "tval \<Rightarrow> tval alloc" where
  "t_or_new_dict v = (if truthy (erase v) then aret v else new_dict [])"

definition t_get_new_dict :: "tval \<Rightarrow> string \<Rightarrow> tval alloc" where
  "t_get_new_dict d k = abind (new_dict []) (\<lambda>dflt. alift (t_get d k dflt))"

definition t_iter :: "tval \<Rightarrow> error + tval list" where
  "t_iter v =
     (case v of
        TList a xs \<Rightarrow> Inr xs
      | TMap a kvs \<Rightarrow> Inr (map (\<lambda>kv. TStr (fst kv)) kvs)
      | TStr s \<Rightarrow> Inr (map (\<lambda>c. TStr [c]) s)
      | _ \<Rightarrow> Inl TypeError)"

text \<open>The value under a path of keys, with identities.\<close>

fun get_path_t :: "tval \<Rightarrow> string list \<Rightarrow> tval option" where
  "get_path_t v [] = Some v"
| "get_path_t (TMap a kvs) (k # ks) =
     (case map_of kvs k of Some v \<Rightarrow> get_path_t v ks | None \<Rightarrow> None)"
| "get_path_t v (k # ks) = None"

text \<open>
  An update in place changes an object that other values may hold as well. A function
  that updates a dict returns, next to its result, the update as a function on values:
  the caller applies it to every variable from which the dict may be reachable.

  \<open>norm_labels\<close>: \<open>meta.setdefault("labels", {})\<close> adds the key to the dict \<open>meta\<close> itself.
\<close>

definition norm_labels_t :: "tval \<Rightarrow> (tval \<times> (tval \<Rightarrow> tval)) alloc" where
  "norm_labels_t meta0 =
     abind (t_or_new_dict meta0) (\<lambda>meta.
       case meta of
         TMap a kvs \<Rightarrow>
           abind (new_dict []) (\<lambda>e.
             aret (TMap a (setdefault kvs ''labels'' e),
                   update_obj a (\<lambda>entries. setdefault entries ''labels'' e)))
       | _ \<Rightarrow> araise AttributeError)"

definition drop_openshift_t :: "tval \<Rightarrow> tval alloc" where
  "drop_openshift_t anns =
     abind (t_or_new_dict anns) (\<lambda>src.
       case src of
         TMap a kvs \<Rightarrow> new_dict (filter (\<lambda>kv. \<not> startswith (fst kv) ''openshift.io/'') kvs)
       | _ \<Rightarrow> araise AttributeError)"

definition strategy_of_t :: "tval \<Rightarrow> tval alloc" where
  "strategy_of_t spec =
     abind (t_get_new_dict spec ''strategy'') (\<lambda>st0.
     abind (t_or_new_dict st0) (\<lambda>st.
     abind (alift (t_get st ''type'' TNull)) (\<lambda>ty.
     abind (alift (py_lower (erase (t_or ty (TStr ''Rolling''))))) (\<lambda>st_type.
       if startswith st_type ''recreate'' then new_dict [(''type'', TStr ''Recreate'')]
       else
         abind (alift (t_get st ''rollingParams'' TNull)) (\<lambda>p0.
         abind (t_or_new_dict p0) (\<lambda>params.
         abind (alift (t_get params ''maxSurge'' (TStr ''25%''))) (\<lambda>max_surge.
         abind (alift (t_get params ''maxUnavailable'' (TStr ''25%''))) (\<lambda>max_unavailable.
         abind (new_dict [(''maxSurge'', max_surge), (''maxUnavailable'', max_unavailable)])
           (\<lambda>rolling_update.
           new_dict [(''type'', TStr ''RollingUpdate''),
                     (''rollingUpdate'', rolling_update)])))))))))"

definition map_image_t ::
  "(yval \<Rightarrow> string) \<Rightarrow> tval \<Rightarrow> tval \<Rightarrow> string \<Rightarrow> string \<Rightarrow> error + tval" where
  "map_image_t fmt image0 name_hint image_registry repo_prefix =
     (let img = t_or image0 (TStr '''') in
      ebind (looks_qualified (erase img)) (\<lambda>q.
        if q then Inr img
        else if image_registry \<noteq> [] \<and> substr_in '':'' image_registry
          then Inr (TStr image_registry)
        else
          let repo = (if repo_prefix \<noteq> []
                      then repo_prefix @ ''/'' @ fstr fmt (erase name_hint)
                      else fstr fmt (erase name_hint))
          in if image_registry \<noteq> []
               then Inr (TStr (image_registry @ ''/'' @ repo @ '':latest''))
             else Inr (t_or img (TStr (repo @ '':latest'')))))"

text \<open>
  The body of the loop of lines 174-183 on the container \<open>c\<close> as it is when the loop
  reaches it: the two assignments \<open>c["image"] = ...\<close> and \<open>c["imagePullPolicy"] = ...\<close>
  change the dict \<open>c\<close> itself, so the result is the update of that object.
\<close>

definition convert_container_t ::
  "(yval \<Rightarrow> string) \<Rightarrow> tval \<Rightarrow> string \<Rightarrow> string \<Rightarrow> tval \<Rightarrow> error + (tval \<Rightarrow> tval)" where
  "convert_container_t fmt name image_registry repo_prefix c =
     (case c of
        TMap a kvs \<Rightarrow>
          ebind (map_image_t fmt (lookup kvs ''image'' (TStr '''')) (lookup kvs ''name'' name)
                   image_registry repo_prefix) (\<lambda>img.
            Inr (update_obj a (\<lambda>entries.
                   let kvs1 = set_item entries ''image'' img in
                   if \<not> truthy (erase (lookup kvs1 ''imagePullPolicy'' TNull))
                   then set_item kvs1 ''imagePullPolicy'' (TStr ''IfNotPresent'')
                   else kvs1)))
      | _ \<Rightarrow> Inl AttributeError)"

text \<open>
  \<open>deployment["spec"]["template"]["spec"].get("containers", [])\<close> and the values a loop
  over it visits, read from the deployment as it is now. The three subscripts are on the
  dicts that the function has just built and cannot fail there.
\<close>

definition containers_of :: "tval \<Rightarrow> error + tval list" where
  "containers_of deployment =
     (case get_path_t deployment [''spec'', ''template'', ''spec''] of
        None \<Rightarrow> Inl KeyError
      | Some tpl_spec \<Rightarrow>
          (case tpl_spec of
             TMap a kvs \<Rightarrow>
               (case map_of kvs ''containers'' of
                  None \<Rightarrow> Inr []
                | Some containers \<Rightarrow> t_iter containers)
           | _ \<Rightarrow> Inl AttributeError))"

text \<open>
  The loop. Python's list iterator keeps an index and reads the element at that index
  from the list as it is at that moment; the body never changes the length of the list,
  and \<open>k\<close> is the number of elements still to visit. Each update is applied to the
  deployment, from which every container is reachable. The variable \<open>name\<close> belongs to
  the copy of the metadata, which shares no object with the copy of the spec where the
  containers live, and stays as it is.
\<close>

fun each_container_t ::
  "(yval \<Rightarrow> string) \<Rightarrow> tval \<Rightarrow> string \<Rightarrow> string \<Rightarrow> nat \<Rightarrow> nat \<Rightarrow> tval \<Rightarrow> error + tval" where
  "each_container_t fmt name image_registry repo_prefix 0 i deployment = Inr deployment"
| "each_container_t fmt name image_registry repo_prefix (Suc k) i deployment =
     ebind (containers_of deployment) (\<lambda>cs.
       if i < length cs then
         ebind (convert_container_t fmt name image_registry repo_prefix (cs ! i)) (\<lambda>upd.
           each_container_t fmt name image_registry repo_prefix k (Suc i) (upd deployment))
       else Inr deployment)"

definition convert_containers_t ::
  "(yval \<Rightarrow> string) \<Rightarrow> tval \<Rightarrow> string \<Rightarrow> string \<Rightarrow> tval \<Rightarrow> error + tval" where
  "convert_containers_t fmt name image_registry repo_prefix deployment =
     ebind (containers_of deployment) (\<lambda>cs.
       each_container_t fmt name image_registry repo_prefix (length cs) 0 deployment)"

text \<open>
  Lines 109-119 of \<open>to_deployment\<close>: the two copies of the input, the reads, and the value
  that line 119 hands to \<open>deepcopy\<close> (the labels of the template, else those of the
  resource, else a new \<open>{"app": name}\<close>). The result is the variables the rest of the
  function uses. \<open>norm_labels(meta)\<close> updates the root of the first copy, which no other
  variable holds. \<open>norm_labels\<close> of the template's metadata updates a dict of the second
  copy: the update is applied to \<open>spec\<close> and \<open>template\<close>, the variables of that copy.
\<close>

record deployment_vars =
  v_name :: tval
  v_meta :: tval
  v_spec :: tval
  v_tpl_meta :: tval
  v_tpl_spec :: tval
  v_label_source :: tval

definition label_source_t :: "tval \<Rightarrow> deployment_vars alloc" where
  "label_source_t dc =
     abind (t_get_new_dict dc ''metadata'') (\<lambda>m0.
     abind (copy_deepcopy m0) (\<lambda>meta0.
     abind (t_get_new_dict dc ''spec'') (\<lambda>s0.
     abind (copy_deepcopy s0) (\<lambda>spec0.
     abind (alift (t_get meta0 ''name'' (TStr ''app''))) (\<lambda>name.
     abind (norm_labels_t meta0) (\<lambda>meta_upd.
     abind (t_get_new_dict spec0 ''template'') (\<lambda>t0.
     abind (t_or_new_dict t0) (\<lambda>template0.
     abind (t_get_new_dict template0 ''metadata'') (\<lambda>tm0.
     abind (t_or_new_dict tm0) (\<lambda>tm1.
     abind (norm_labels_t tm1) (\<lambda>tpl_meta_upd.
     abind (t_get_new_dict (snd tpl_meta_upd template0) ''spec'') (\<lambda>ts0.
     abind (t_or_new_dict ts0) (\<lambda>tpl_spec.
     abind (alift (t_get (fst tpl_meta_upd) ''labels'' TNull)) (\<lambda>tpl_labels.
     abind (alift (t_get (fst meta_upd) ''labels'' TNull)) (\<lambda>meta_labels.
     abind (if truthy (erase (t_or tpl_labels meta_labels))
            then aret (t_or tpl_labels meta_labels)
            else new_dict [(''app'', name)]) (\<lambda>source.
       aret \<lparr>v_name = name, v_meta = fst meta_upd, v_spec = snd tpl_meta_upd spec0,
             v_tpl_meta = fst tpl_meta_upd, v_tpl_spec = tpl_spec,
             v_label_source = source\<rparr>))))))))))))))))"

text \<open>
  \<open>to_deployment\<close> with identities: the three copies of lines 119-121, the new dicts of
  the literal of lines 125-151 with the strategy of lines 154-166 (the \<open>pop\<close>s of lines
  169-170 are on the entries of the new spec), and the container loop on the deployment
  so built.
\<close>

definition to_deployment_t ::
  "(yval \<Rightarrow> string) \<Rightarrow> tval \<Rightarrow> string \<Rightarrow> string \<Rightarrow> tval alloc" where
  "to_deployment_t fmt dc image_registry repo_prefix =
     abind (label_source_t dc) (\<lambda>vs.
     abind (copy_deepcopy (v_label_source vs)) (\<lambda>labels.
     abind (copy_deepcopy labels) (\<lambda>selector_labels.
     abind (copy_deepcopy labels) (\<lambda>template_labels.
     abind (alift (t_get (v_meta vs) ''annotations'' TNull)) (\<lambda>a0.
     abind (drop_openshift_t a0) (\<lambda>annotations.
     abind (alift (t_get (v_spec vs) ''replicas'' (TInt 1))) (\<lambda>replicas.
     abind (alift (t_get (v_tpl_meta vs) ''annotations'' TNull)) (\<lambda>ta0.
     abind (drop_openshift_t ta0) (\<lambda>tpl_annotations.
     abind (strategy_of_t (v_spec vs)) (\<lambda>strategy.
     abind (new_dict [(''name'', v_name vs), (''labels'', labels),
                      (''annotations'', annotations)]) (\<lambda>metadata.
     abind (new_dict [(''matchLabels'', selector_labels)]) (\<lambda>selector.
     abind (new_dict [(''labels'', template_labels),
                      (''annotations'', tpl_annotations)]) (\<lambda>template_metadata.
     abind (new_dict [(''metadata'', template_metadata), (''spec'', v_tpl_spec vs)]) (\<lambda>template.
     abind (new_dict (fold (\<lambda>fld kvs. pop_item kvs fld) [''triggers'', ''test'', ''paused'']
                        [(''replicas'', replicas), (''selector'', selector),
                         (''template'', template), (''strategy'', strategy)])) (\<lambda>dspec.
     abind (new_dict [(''apiVersion'', TStr ''apps/v1''), (''kind'', TStr ''Deployment''),
                      (''metadata'', metadata), (''spec'', dspec)]) (\<lambda>deployment.
       alift (convert_containers_t fmt (v_name vs) image_registry repo_prefix
                deployment)))))))))))))))))"


subsection \<open>Invariants of the memo\<close>

text \<open>
  What the proofs about \<open>deepcopy\<close> keep track of: the identities and the objects of the
  copies the memo holds; that a call hands out identities from the counter on only;
  that the copies stay consistent with each other; and that a copy in the memo has the
  content of the object it was made from.
\<close>

definition memo_ids :: "(nat \<times> tval) list \<Rightarrow> nat set" where
  "memo_ids memo = (\<Union>e\<in>set memo. ids (snd e))"

definition ok_ids :: "nat \<Rightarrow> (nat \<times> tval) list \<Rightarrow> nat \<Rightarrow> (nat \<times> tval) list \<Rightarrow> nat set \<Rightarrow> bool" where
  "ok_ids n memo n' memo' S \<longleftrightarrow>
     n \<le> n' \<and> S \<subseteq> memo_ids memo \<union> {n..<n'} \<and> memo_ids memo' \<subseteq> memo_ids memo \<union> {n..<n'}"

definition memo_nodes :: "(nat \<times> tval) list \<Rightarrow> tval set" where
  "memo_nodes memo = (\<Union>e\<in>set memo. nodes (snd e))"

definition good :: "nat \<Rightarrow> (nat \<times> tval) list \<Rightarrow> bool" where
  "good n memo \<longleftrightarrow> memo_ids memo \<subseteq> {..<n} \<and> consistent_on (memo_nodes memo)"

definition step :: "nat \<Rightarrow> (nat \<times> tval) list \<Rightarrow> nat \<Rightarrow> (nat \<times> tval) list \<Rightarrow> tval set \<Rightarrow> bool" where
  "step n memo n' memo' S \<longleftrightarrow>
     (good n memo \<longrightarrow> good n' memo' \<and> S \<subseteq> memo_nodes memo' \<and> memo_nodes memo \<subseteq> memo_nodes memo')"

definition einv :: "tval set \<Rightarrow> (nat \<times> tval) list \<Rightarrow> bool" where
  "einv U memo \<longleftrightarrow>
     (\<forall>a y x. map_of memo a = Some y \<longrightarrow> x \<in> U \<longrightarrow> oid x = Some a \<longrightarrow> erase y = erase x)"

section \<open>Observations\<close>

text \<open>
  What the properties read of a document: the value under a path of keys (\<open>None\<close> when a
  key is missing or a step is not a mapping), and a default for a missing value.
\<close>

fun get_path :: "yval \<Rightarrow> string list \<Rightarrow> yval option" where
  "get_path v [] = Some v"
| "get_path (YMap kvs) (k # ks) = (case map_of kvs k of Some v \<Rightarrow> get_path v ks | None \<Rightarrow> None)"
| "get_path v (k # ks) = None"

definition or_default :: "yval option \<Rightarrow> yval \<Rightarrow> yval" where
  "or_default r dflt = (case r of Some v \<Rightarrow> v | None \<Rightarrow> dflt)"

text \<open>
  No document of a bundle has one of the two kinds \<open>map_output_filename\<close> looks for.
\<close>

definition no_source_kind :: "yval list \<Rightarrow> bool" where
  "no_source_kind out_docs \<longleftrightarrow>
     YStr ''DeploymentConfig'' \<notin> set (doc_kinds out_docs) \<and> YStr ''Route'' \<notin> set (doc_kinds out_docs)"

section \<open>Properties\<close>

subsection \<open>Basic facts\<close>

lemma ebind_Inr [simp]: "ebind (Inr x) f = f x"
  by (simp add: ebind_def)

lemma ebind_Inl [simp]: "ebind (Inl e) f = Inl e"
  by (simp add: ebind_def)

lemma ebind_eq_Inr: "ebind m f = Inr y \<longleftrightarrow> (\<exists>x. m = Inr x \<and> f x = Inr y)"
  by (cases m) simp_all

lemma substr_in_single: "substr_in [c] s \<longleftrightarrow> c \<in> set s"
  by (induction s) (auto simp: startswith_def)

lemma looks_qualified_str:
  "looks_qualified (YStr s) =
     Inr (s \<noteq> [] \<and> (CHR ''/'' \<in> set s \<or> CHR ''.'' \<in> set s) \<and> CHR '':'' \<in> set s)"
  by (simp add: looks_qualified_def py_in_def substr_in_single)

text \<open>
  Claim C2. An image string that is non-empty, contains a slash or a dot, and contains a
  colon is returned unchanged by \<open>map_image\<close>, whatever the name hint, the registry
  override and the repository prefix are.
\<close>

theorem map_image_qualified_identity:
  assumes "img \<noteq> []"
    and "CHR ''/'' \<in> set img \<or> CHR ''.'' \<in> set img"
    and "CHR '':'' \<in> set img"
  shows "map_image fmt (YStr img) name_hint image_registry repo_prefix = Inr (YStr img)"
  using assms by (simp add: map_image_def py_or_def looks_qualified_str)

theorem map_image_qualified_identity_witness:
  "map_image (\<lambda>v. []) (YStr ''quay.io/team/web:1.4'') (YStr ''web'') ''myacr.azurecr.io'' ''apps''
     = Inr (YStr ''quay.io/team/web:1.4'')"
  by (rule map_image_qualified_identity) simp_all

text \<open>
  Claim C3. When the image does not look fully qualified and the registry override has
  no colon, \<open>map_image\<close> returns \<open>registry/repo:latest\<close> for a non-empty registry,
  else the image when it is non-empty, else \<open>repo:latest\<close>, where \<open>repo\<close> is the name
  hint, prefixed by \<open>repo_prefix/\<close> when there is a prefix. With registry
  \<open>myacr.azurecr.io\<close>, prefix \<open>apps\<close>, hint \<open>web\<close> and an empty image the result is
  \<open>myacr.azurecr.io/apps/web:latest\<close>. For all strings (and for the image \<open>None\<close>) the
  result is a non-empty string.
\<close>

theorem map_image_fallback:
  "(\<not> (img \<noteq> [] \<and> (CHR ''/'' \<in> set img \<or> CHR ''.'' \<in> set img) \<and> CHR '':'' \<in> set img)
      \<and> CHR '':'' \<notin> set image_registry \<longrightarrow>
    map_image fmt (YStr img) (YStr name_hint) image_registry repo_prefix =
      (let repo = (if repo_prefix \<noteq> [] then repo_prefix @ ''/'' @ name_hint else name_hint) in
       Inr (YStr (if image_registry \<noteq> [] then image_registry @ ''/'' @ repo @ '':latest''
                  else if img \<noteq> [] then img
                  else repo @ '':latest''))))
   \<and> map_image fmt (YStr '''') (YStr ''web'') ''myacr.azurecr.io'' ''apps''
        = Inr (YStr ''myacr.azurecr.io/apps/web:latest'')
   \<and> (\<exists>s. map_image fmt (YStr img) (YStr name_hint) image_registry repo_prefix = Inr (YStr s)
          \<and> s \<noteq> [])
   \<and> (\<exists>s. map_image fmt YNull (YStr name_hint) image_registry repo_prefix = Inr (YStr s)
          \<and> s \<noteq> [])"
proof (intro conjI impI)
  assume "\<not> (img \<noteq> [] \<and> (CHR ''/'' \<in> set img \<or> CHR ''.'' \<in> set img) \<and> CHR '':'' \<in> set img)
    \<and> CHR '':'' \<notin> set image_registry"
  then show "map_image fmt (YStr img) (YStr name_hint) image_registry repo_prefix =
      (let repo = (if repo_prefix \<noteq> [] then repo_prefix @ ''/'' @ name_hint else name_hint) in
       Inr (YStr (if image_registry \<noteq> [] then image_registry @ ''/'' @ repo @ '':latest''
                  else if img \<noteq> [] then img
                  else repo @ '':latest'')))"
    by (auto simp add: map_image_def py_or_def looks_qualified_str substr_in_single fstr_def Let_def)
next
  show "map_image fmt (YStr '''') (YStr ''web'') ''myacr.azurecr.io'' ''apps''
        = Inr (YStr ''myacr.azurecr.io/apps/web:latest'')"
    by (simp add: map_image_def py_or_def looks_qualified_str startswith_def fstr_def)
next
  show "\<exists>s. map_image fmt (YStr img) (YStr name_hint) image_registry repo_prefix = Inr (YStr s)
          \<and> s \<noteq> []"
    by (simp add: map_image_def py_or_def looks_qualified_str substr_in_single fstr_def Let_def)
next
  show "\<exists>s. map_image fmt YNull (YStr name_hint) image_registry repo_prefix = Inr (YStr s)
          \<and> s \<noteq> []"
    by (simp add: map_image_def py_or_def looks_qualified_str substr_in_single fstr_def Let_def)
qed

theorem map_image_fallback_witness:
  "map_image (\<lambda>v. []) (YStr ''web'') (YStr ''web'') ''myacr.azurecr.io'' '''' 
     = Inr (YStr ''myacr.azurecr.io/web:latest'')
   \<and> map_image (\<lambda>v. []) (YStr ''busybox'') (YStr ''web'') '''' ''apps'' = Inr (YStr ''busybox'')
   \<and> map_image (\<lambda>v. []) (YStr '''') (YStr ''web'') '''' ''apps'' = Inr (YStr ''apps/web:latest'')"
  using map_image_fallback [of "''web''" "''myacr.azurecr.io''" "\<lambda>v. []" "''web''" "''''"]
    map_image_fallback [of "''busybox''" "''''" "\<lambda>v. []" "''web''" "''apps''"]
    map_image_fallback [of "''''" "''''" "\<lambda>v. []" "''web''" "''apps''"]
  by simp

subsection \<open>Paths into documents\<close>

lemma py_get_Inr: "py_get d k dflt = Inr v \<longleftrightarrow> (\<exists>kvs. d = YMap kvs \<and> v = lookup kvs k dflt)"
  by (cases d) (auto simp: py_get_def)

lemma get_path_lookup:
  "ks \<noteq> [] \<Longrightarrow> get_path (lookup kvs k (YMap [])) ks = get_path (YMap kvs) (k # ks)"
  by (cases ks) (auto simp: lookup_def split: option.splits)

lemma get_path_py_or:
  "ks \<noteq> [] \<Longrightarrow> get_path (py_or v (YMap [])) ks = get_path v ks"
  by (cases ks; cases v) (auto simp: py_or_def)

lemma get_path_lookup_null:
  "ks \<noteq> [] \<Longrightarrow> get_path (lookup kvs k YNull) ks = get_path (YMap kvs) (k # ks)"
  by (cases ks) (auto simp: lookup_def split: option.splits)

lemma py_get_or_path:
  "py_get (py_or v (YMap [])) k dflt = Inr r \<Longrightarrow> r = or_default (get_path v [k]) dflt"
  by (cases v) (auto simp: py_get_def py_or_def lookup_def or_default_def split: if_splits option.splits)

lemma py_get_path:
  "py_get v k dflt = Inr r \<Longrightarrow> r = or_default (get_path v [k]) dflt"
  by (cases v) (auto simp: py_get_def lookup_def or_default_def split: option.splits)

lemma get_path_append:
  "get_path v (p @ q) = (case get_path v p of Some w \<Rightarrow> get_path w q | None \<Rightarrow> None)"
  by (induction v p rule: get_path.induct) (auto split: option.splits)

lemma get_path_step: "get_path v [a] = Some w \<Longrightarrow> get_path v (a # ks) = get_path w ks"
  using get_path_append[of v "[a]" ks] by simp

lemma get_path_or_default_map:
  "get_path (or_default (get_path v p) (YMap [])) (k # ks) = get_path v (p @ k # ks)"
  by (simp add: get_path_append or_default_def split: option.splits)






lemma to_deployment_Inr:
  assumes "to_deployment fmt dc reg pre = Inr d"
  obtains spec nm labels annotations replicas tpl_annotations tpl_spec' strategy where
    "py_get dc ''spec'' (YMap []) = Inr spec"
    "strategy_of spec = Inr strategy"
    "d = YMap
         [(''apiVersion'', YStr ''apps/v1''),
          (''kind'', YStr ''Deployment''),
          (''metadata'', YMap [(''name'', nm),
                               (''labels'', labels),
                               (''annotations'', YMap annotations)]),
          (''spec'', YMap
             [(''replicas'', replicas),
              (''selector'', YMap [(''matchLabels'', labels)]),
              (''template'', YMap [(''metadata'', YMap [(''labels'', labels),
                                                       (''annotations'', YMap tpl_annotations)]),
                                   (''spec'', tpl_spec')]),
              (''strategy'', strategy)])]"
  using assms
  by (auto simp: to_deployment_def ebind_eq_Inr Let_def pop_item_def)




lemmas doc_defs =
  Let_def ebind_def py_or_def lookup_def py_get_def py_items_def py_iter_def pop_item_def setdefault_def
  startswith_def lower_def lower_char_def py_lower_def py_in_def fstr_def norm_labels_def
  looks_qualified_def map_image_def drop_openshift_def strategy_of_def convert_container_def
  convert_containers_def to_deployment_def port_ref_def tls_entry_def to_ingress_def or_default_def



lemma to_ingress_Inr:
  assumes "to_ingress fmt route dd ic ts = Inr ing"
  shows "\<exists>meta s0 nm h0 tls rules labels.
    py_get route ''metadata'' (YMap []) = Inr meta \<and>
    py_get route ''spec'' (YMap []) = Inr s0 \<and>
    py_get meta ''name'' (YStr ''web'') = Inr nm \<and>
    py_get (py_or s0 (YMap [])) ''host'' YNull = Inr h0 \<and>
    py_get (py_or s0 (YMap [])) ''tls'' YNull = Inr tls \<and>
    ing = YMap
       [(''apiVersion'', YStr ''networking.k8s.io/v1''),
        (''kind'', YStr ''Ingress''),
        (''metadata'', YMap [(''name'', nm),
                             (''labels'', YMap labels),
                             (''annotations'',
                                YMap [(''kubernetes.io/ingress.class'', YStr ic)])]),
        (''spec'', YMap ((''rules'', rules) #
           (if ts \<noteq> []
              then [(''tls'', YList [tls_entry (py_or h0 (YStr (fstr fmt nm @ ''.'' @ dd))) ts])]
            else if truthy tls
              then [(''tls'', YList [tls_entry (py_or h0 (YStr (fstr fmt nm @ ''.'' @ dd)))
                                       (fstr fmt nm @ ''-tls'')])]
            else [])))]"
  using assms
  by (cases "ts = []"; cases "truthy (or_default (get_path route [''spec'', ''tls'']) YNull)")
     (auto simp: to_ingress_def ebind_eq_Inr Let_def)

text \<open>
  Claim C6. Whenever \<open>to_ingress\<close> returns, the spec of the output is the \<open>rules\<close> entry
  followed by: one TLS entry for the host with the given secret when \<open>tls_secret\<close> is
  non-empty; otherwise one TLS entry with the secret \<open>name-tls\<close> when the route declares
  TLS (the value under \<open>spec.tls\<close> is true in Python's sense); otherwise nothing, so
  that there is no \<open>tls\<close> key. The host is \<open>spec.host\<close> or, without one,
  \<open>name.default_domain\<close>. In particular a route named \<open>api\<close> that declares TLS and has
  no host of its own, with no secret given and the default domain
  \<open>apps.example.com\<close>, gets the entry for \<open>api.apps.example.com\<close> with \<open>api-tls\<close>.
\<close>

theorem to_ingress_tls:
  assumes "to_ingress fmt route dd ic ts = Inr ing"
  shows "(\<exists>rules. get_path ing [''spec''] = Some (YMap ((''rules'', rules) #
      (let nm = or_default (get_path route [''metadata'', ''name'']) (YStr ''web'');
           host = py_or (or_default (get_path route [''spec'', ''host'']) YNull)
                    (YStr (fstr fmt nm @ ''.'' @ dd))
       in if ts \<noteq> []
            then [(''tls'', YList [YMap [(''hosts'', YList [host]), (''secretName'', YStr ts)]])]
          else if truthy (or_default (get_path route [''spec'', ''tls'']) YNull)
            then [(''tls'', YList [YMap [(''hosts'', YList [host]),
                                         (''secretName'', YStr (fstr fmt nm @ ''-tls''))]])]
          else []))))
    \<and> (ts = [] \<and> dd = ''apps.example.com''
         \<and> get_path route [''metadata'', ''name''] = Some (YStr ''api'')
         \<and> \<not> truthy (or_default (get_path route [''spec'', ''host'']) YNull)
         \<and> truthy (or_default (get_path route [''spec'', ''tls'']) YNull)
       \<longrightarrow> get_path ing [''spec'', ''tls''] = Some (YList
             [YMap [(''hosts'', YList [YStr ''api.apps.example.com'']),
                    (''secretName'', YStr ''api-tls'')]]))"
proof -
  from assms obtain meta s0 nm h0 tls rules labels where
    g1: "py_get route ''metadata'' (YMap []) = Inr meta" and
    g2: "py_get route ''spec'' (YMap []) = Inr s0" and
    g3: "py_get meta ''name'' (YStr ''web'') = Inr nm" and
    g4: "py_get (py_or s0 (YMap [])) ''host'' YNull = Inr h0" and
    g5: "py_get (py_or s0 (YMap [])) ''tls'' YNull = Inr tls" and
    ing: "ing = YMap
       [(''apiVersion'', YStr ''networking.k8s.io/v1''),
        (''kind'', YStr ''Ingress''),
        (''metadata'', YMap [(''name'', nm),
                             (''labels'', YMap labels),
                             (''annotations'',
                                YMap [(''kubernetes.io/ingress.class'', YStr ic)])]),
        (''spec'', YMap ((''rules'', rules) #
           (if ts \<noteq> []
              then [(''tls'', YList [tls_entry (py_or h0 (YStr (fstr fmt nm @ ''.'' @ dd))) ts])]
            else if truthy tls
              then [(''tls'', YList [tls_entry (py_or h0 (YStr (fstr fmt nm @ ''.'' @ dd)))
                                       (fstr fmt nm @ ''-tls'')])]
            else [])))]"
    using to_ingress_Inr[OF assms] by blast
  have meta: "meta = or_default (get_path route [''metadata'']) (YMap [])"
    using g1 by (rule py_get_path)
  have s0: "s0 = or_default (get_path route [''spec'']) (YMap [])"
    using g2 by (rule py_get_path)
  have nm: "nm = or_default (get_path route [''metadata'', ''name'']) (YStr ''web'')"
    using py_get_path[OF g3] by (simp add: meta get_path_or_default_map)
  have h0: "h0 = or_default (get_path route [''spec'', ''host'']) YNull"
    using py_get_or_path[OF g4] by (simp add: s0 get_path_or_default_map)
  have tls: "tls = or_default (get_path route [''spec'', ''tls'']) YNull"
    using py_get_or_path[OF g5] by (simp add: s0 get_path_or_default_map)
  show ?thesis
    unfolding ing nm[symmetric] h0[symmetric] tls[symmetric]
    using nm
    by (auto simp: tls_entry_def Let_def py_or_def or_default_def fstr_def)
qed


theorem to_ingress_tls_witness:
  "(\<exists>ing. to_ingress (\<lambda>v. [])
        (YMap [(''kind'', YStr ''Route''),
               (''metadata'', YMap [(''name'', YStr ''api'')]),
               (''spec'', YMap [(''tls'', YMap [(''termination'', YStr ''edge'')])])])
        ''apps.example.com'' ''nginx'' [] = Inr ing
      \<and> get_path ing [''spec'', ''tls''] = Some (YList
            [YMap [(''hosts'', YList [YStr ''api.apps.example.com'']),
                   (''secretName'', YStr ''api-tls'')]]))
   \<and> (\<exists>ing. to_ingress (\<lambda>v. [])
        (YMap [(''kind'', YStr ''Route''),
               (''metadata'', YMap [(''name'', YStr ''api'')]),
               (''spec'', YMap [(''host'', YStr ''api.corp.test'')])])
        ''apps.example.com'' ''nginx'' [] = Inr ing
      \<and> (\<exists>rules. get_path ing [''spec''] = Some (YMap [(''rules'', rules)])))
   \<and> (\<exists>ing. to_ingress (\<lambda>v. [])
        (YMap [(''kind'', YStr ''Route''),
               (''metadata'', YMap [(''name'', YStr ''api'')]),
               (''spec'', YMap [(''host'', YStr ''api.corp.test'')])])
        ''apps.example.com'' ''nginx'' ''wild-tls'' = Inr ing
      \<and> get_path ing [''spec'', ''tls''] = Some (YList
            [YMap [(''hosts'', YList [YStr ''api.corp.test'']),
                   (''secretName'', YStr ''wild-tls'')]]))"
proof -
  let ?r1 = "YMap [(''kind'', YStr ''Route''),
               (''metadata'', YMap [(''name'', YStr ''api'')]),
               (''spec'', YMap [(''tls'', YMap [(''termination'', YStr ''edge'')])])]"
  let ?r2 = "YMap [(''kind'', YStr ''Route''),
               (''metadata'', YMap [(''name'', YStr ''api'')]),
               (''spec'', YMap [(''host'', YStr ''api.corp.test'')])]"
  obtain i1 where e1: "to_ingress (\<lambda>v. []) ?r1 ''apps.example.com'' ''nginx'' [] = Inr i1"
    by (simp add: doc_defs)
  obtain i2 where e2: "to_ingress (\<lambda>v. []) ?r2 ''apps.example.com'' ''nginx'' [] = Inr i2"
    by (simp add: doc_defs)
  obtain i3 where e3: "to_ingress (\<lambda>v. []) ?r2 ''apps.example.com'' ''nginx'' ''wild-tls'' = Inr i3"
    by (simp add: doc_defs)
  have "get_path i1 [''spec'', ''tls''] = Some (YList
            [YMap [(''hosts'', YList [YStr ''api.apps.example.com'']),
                   (''secretName'', YStr ''api-tls'')]])"
    using to_ingress_tls[OF e1] by (simp add: or_default_def)
  moreover have "\<exists>rules. get_path i2 [''spec''] = Some (YMap [(''rules'', rules)])"
    using to_ingress_tls[OF e2] by (simp add: or_default_def)
  moreover have "get_path i3 [''spec'', ''tls''] = Some (YList
            [YMap [(''hosts'', YList [YStr ''api.corp.test'']),
                   (''secretName'', YStr ''wild-tls'')]])"
  proof -
    from to_ingress_tls[OF e3] obtain rules where
      "get_path i3 [''spec''] = Some (YMap [(''rules'', rules), (''tls'', YList
            [YMap [(''hosts'', YList [YStr ''api.corp.test'']),
                   (''secretName'', YStr ''wild-tls'')]])])"
      by (auto simp add: or_default_def py_or_def)
    from get_path_step[OF this, of "[''tls'']"] show ?thesis by simp
  qed
  ultimately show ?thesis using e1 e2 e3 by simp
qed

lemma process_files_append:
  "process_files fmt a st (es1 @ es2) =
     ebind (process_files fmt a st es1) (\<lambda>st1. process_files fmt a st1 es2)"
  by (induction es1 arbitrary: st) (auto simp: ebind_def split: sum.splits)

text \<open>
  Claim C8. For a source file (a YAML file of the directory) whose content fails to
  parse, the loop body returns the state it was given with exactly one warning appended:
  no counter changes and nothing is written. The run goes on: the files after it are
  processed from that state, whatever files came before it.
\<close>

theorem parse_failure_skips_file:
  assumes "is_file e" and "is_yaml_file (path_name e)" and "loaded e = Inl msg"
  shows "process_file fmt a st e =
           Inr (st\<lparr>warnings := warnings st @ [''Failed to parse '' @ path_text e @ '': '' @ msg]\<rparr>)
    \<and> process_files fmt a st (es1 @ e # es2) =
        ebind (process_files fmt a st es1) (\<lambda>st1.
          process_files fmt a
            (st1\<lparr>warnings := warnings st1 @ [''Failed to parse '' @ path_text e @ '': '' @ msg]\<rparr>)
            es2)"
proof -
  have one: "process_file fmt a s e =
      Inr (s\<lparr>warnings := warnings s @ [''Failed to parse '' @ path_text e @ '': '' @ msg]\<rparr>)" for s
    using assms by (simp add: process_file_def)
  show ?thesis
    by (simp add: one process_files_append)
qed

lemma rfind_None: "rfind c xs = None \<longleftrightarrow> c \<notin> set xs"
  by (induction xs) (auto split: option.splits)

lemma rfind_append: "c \<notin> set ys \<Longrightarrow> rfind c (xs @ c # ys) = Some (length xs)"
  by (induction xs) (auto simp: rfind_None split: option.splits)

lemma rfind_Some: "rfind c xs = Some i \<Longrightarrow> i < length xs \<and> xs ! i = c \<and> c \<notin> set (drop (Suc i) xs)"
proof (induction xs arbitrary: i)
  case Nil
  then show ?case by simp
next
  case (Cons x xs)
  then show ?case
    by (cases "rfind c xs") (auto simp: rfind_None split: if_splits)
qed

lemma path_suffix_nonempty:
  assumes "path_suffix nm \<noteq> []"
  obtains i where "rfind (CHR ''.'') nm = Some i" "0 < i" "i < length nm - 1"
    "path_suffix nm = drop i nm"
  using assms by (auto simp: path_suffix_def split: option.splits if_splits)

lemma with_suffix_yaml:
  assumes "path_suffix nm \<noteq> []"
  shows "\<exists>dest. with_suffix nm ''.yaml'' = Inr dest
     \<and> dest = take (length nm - length (path_suffix nm)) nm @ ''.yaml''
     \<and> path_suffix dest = ''.yaml''"
proof -
  from assms obtain i where i: "rfind (CHR ''.'') nm = Some i" "0 < i" "i < length nm - 1"
    "path_suffix nm = drop i nm"
    by (rule path_suffix_nonempty)
  have nm: "nm \<noteq> []" using i by auto
  have len: "length nm - length (path_suffix nm) = i" using i by simp
  have ws: "with_suffix nm ''.yaml'' = Inr (take i nm @ ''.yaml'')"
    using assms nm len by (simp add: with_suffix_def startswith_def Let_def)
  have "rfind (CHR ''.'') (take i nm @ CHR ''.'' # ''yaml'') = Some (length (take i nm))"
    by (rule rfind_append) simp
  moreover have "length (take i nm) = i" using i by simp
  ultimately have "path_suffix (take i nm @ ''.yaml'') = ''.yaml''"
    using i(2) by (simp add: path_suffix_def)
  with ws len show ?thesis by simp
qed

lemma is_yaml_file_suffix: "is_yaml_file nm \<Longrightarrow> path_suffix nm \<noteq> []"
  by (auto simp: is_yaml_file_def lower_def)

lemma map_output_filename_cases:
  assumes "map_output_filename nm out_docs = Inr mapped"
  shows "mapped = ''deployment.yaml'' \<or> mapped = ''ingress.yaml'' \<or> mapped = nm"
  using assms
  by (auto simp: map_output_filename_def ebind_eq_Inr mappings_def split: option.splits if_splits)

lemma fixed_names_suffix:
  "with_suffix ''deployment.yaml'' ''.yaml'' = Inr ''deployment.yaml''"
  "with_suffix ''ingress.yaml'' ''.yaml'' = Inr ''ingress.yaml''"
  "path_suffix ''deployment.yaml'' = ''.yaml''"
  "path_suffix ''ingress.yaml'' = ''.yaml''"
  by (simp_all add: with_suffix_def path_suffix_def startswith_def)

lemma dispatch_written:
  "dispatch fmt a (st, out) doc = Inr (st', out') \<Longrightarrow> written st' = written st"
  by (auto simp: dispatch_def Let_def ebind_eq_Inr split: yval.splits option.splits if_splits)

lemma dispatch_all_written:
  "dispatch_all fmt a (st, out) docs = Inr (st', out') \<Longrightarrow> written st' = written st"
proof (induction docs arbitrary: st out)
  case Nil
  then show ?case by simp
next
  case (Cons doc docs)
  then obtain st1 out1 where d: "dispatch fmt a (st, out) doc = Inr (st1, out1)"
    and r: "dispatch_all fmt a (st1, out1) docs = Inr (st', out')"
    by (auto simp: ebind_eq_Inr)
  from Cons.IH[OF r] dispatch_written[OF d] show ?case by simp
qed

text \<open>
  Claim C10. For a source file with a non-empty output bundle, the name the bundle is
  written under has the suffix \<open>.yaml\<close>, whatever the suffix of the source file was; when
  the router keeps the name of the source file, the name written is that name with its
  suffix replaced by \<open>.yaml\<close> (\<open>config.yml\<close> is written as \<open>config.yaml\<close>).
\<close>

theorem written_name_has_yaml_suffix:
  assumes "is_file e" and "is_yaml_file (path_name e)" and "loaded e = Inr docs"
    and "dispatch_all fmt a (st, []) docs = Inr (st1, out_docs)" and "out_docs \<noteq> []"
    and "process_file fmt a st e = Inr st'"
  shows "\<exists>mapped dest. map_output_filename (path_name e) out_docs = Inr mapped
      \<and> written st' = written st @ [(dest, out_docs)]
      \<and> path_suffix dest = ''.yaml''
      \<and> (mapped = path_name e \<longrightarrow>
           dest = take (length (path_name e) - length (path_suffix (path_name e))) (path_name e)
                    @ ''.yaml'')"
proof -
  from assms obtain mapped dest where
    m: "map_output_filename (path_name e) out_docs = Inr mapped" and
    w: "with_suffix mapped ''.yaml'' = Inr dest" and
    st': "st' = st1\<lparr>written := written st1 @ [(dest, out_docs)]\<rparr>"
    by (auto simp: process_file_def ebind_eq_Inr)
  have wr: "written st' = written st @ [(dest, out_docs)]"
    using st' dispatch_all_written[OF assms(4)] by simp
  from with_suffix_yaml[OF is_yaml_file_suffix[OF assms(2)]] obtain d0 where
    d0: "with_suffix (path_name e) ''.yaml'' = Inr d0"
      "d0 = take (length (path_name e) - length (path_suffix (path_name e))) (path_name e) @ ''.yaml''"
      "path_suffix d0 = ''.yaml''"
    by blast
  from map_output_filename_cases[OF m] w d0 have "path_suffix dest = ''.yaml''"
    by (auto simp: fixed_names_suffix)
  moreover have "dest = d0" if "mapped = path_name e"
    using that w d0 by simp
  ultimately show ?thesis using m wr d0 by auto
qed


lemmas run_defs =
  is_yaml_file_def path_suffix_def with_suffix_def kinds_in_output_def mappings_def
  map_output_filename_def pass_through_def buildconfig_warning_def dispatch_def
  process_file_def initial_def main_def

theorem written_name_has_yaml_suffix_witness:
  "\<exists>st'. process_file (\<lambda>v. [])
      \<lparr>opt_image_registry = [], opt_repo_prefix = [], opt_default_domain = ''apps.example.com'',
        opt_ingress_class = ''nginx'', opt_tls_secret = []\<rparr>
      initial
      \<lparr>path_text = ''openshift/config.yml'', path_name = ''config.yml'', is_file = True,
        loaded = Inr [YMap [(''kind'', YStr ''ConfigMap''),
                            (''metadata'', YMap [(''name'', YStr ''settings'')])]]\<rparr> = Inr st'
    \<and> map fst (written st') = [''config.yaml'']"
proof -
  let ?a = "\<lparr>opt_image_registry = [], opt_repo_prefix = [], opt_default_domain = ''apps.example.com'',
        opt_ingress_class = ''nginx'', opt_tls_secret = []\<rparr>"
  let ?docs = "[YMap [(''kind'', YStr ''ConfigMap''),
                      (''metadata'', YMap [(''name'', YStr ''settings'')])]]"
  let ?e = "\<lparr>path_text = ''openshift/config.yml'', path_name = ''config.yml'', is_file = True,
        loaded = Inr ?docs\<rparr>"
  have y: "is_yaml_file (path_name ?e)"
    by (simp add: run_defs doc_defs)
  obtain st1 where d: "dispatch_all (\<lambda>v. []) ?a (initial, []) ?docs = Inr (st1, ?docs)"
    by (simp add: run_defs doc_defs)
  have m: "map_output_filename (path_name ?e) ?docs = Inr ''config.yml''"
    by (simp add: run_defs doc_defs)
  obtain st' where p: "process_file (\<lambda>v. []) ?a initial ?e = Inr st'"
    by (simp add: run_defs doc_defs)
  from written_name_has_yaml_suffix[OF _ y _ d _ p] m
  have h: "map fst (written st') = [''config.yaml'']"
    by (auto simp: run_defs)
  show ?thesis
    by (rule exI[of _ st'], rule conjI, rule p, rule h)
qed


theorem parse_failure_skips_file_witness:
  "process_files (\<lambda>v. [])
      \<lparr>opt_image_registry = [], opt_repo_prefix = [], opt_default_domain = ''apps.example.com'',
        opt_ingress_class = ''nginx'', opt_tls_secret = []\<rparr>
      initial
      [\<lparr>path_text = ''openshift/bad.yaml'', path_name = ''bad.yaml'', is_file = True,
         loaded = Inl ''mapping values are not allowed here''\<rparr>,
       \<lparr>path_text = ''openshift/svc.yaml'', path_name = ''svc.yaml'', is_file = True,
         loaded = Inr [YMap [(''kind'', YStr ''Service'')]]\<rparr>]
    = Inr \<lparr>n_DeploymentConfig = 0, n_Route = 0, n_BuildConfig = 0, n_Other = 1, converted = 0,
           warnings = [''Failed to parse openshift/bad.yaml: mapping values are not allowed here''],
           written = [(''svc.yaml'', [YMap [(''kind'', YStr ''Service'')]])]\<rparr>"
proof -
  let ?bad = "\<lparr>path_text = ''openshift/bad.yaml'', path_name = ''bad.yaml'', is_file = True,
         loaded = Inl ''mapping values are not allowed here''\<rparr>"
  have y: "is_yaml_file (path_name ?bad)"
    by (simp add: run_defs doc_defs)
  from parse_failure_skips_file[OF _ y, of "''mapping values are not allowed here''" _ _ _ "[]"]
  show ?thesis
    by (simp add: run_defs doc_defs)
qed





lemma map_of_set_item:
  "map_of (set_item kvs k v) k' = (if k' = k then Some v else map_of kvs k')"
  by (induction kvs) auto





lemma dispatch_other:
  assumes "map_of kvs ''kind'' = Some kind"
    and "kind \<noteq> YStr ''DeploymentConfig''" and "kind \<noteq> YStr ''Route''"
    and "kind \<noteq> YStr ''BuildConfig''"
  shows "dispatch fmt a (st, out_docs) (YMap kvs) =
     ebind (pass_through (YMap kvs)) (\<lambda>d. Inr (st\<lparr>n_Other := n_Other st + 1\<rparr>, out_docs @ [d]))"
  using assms by (simp add: dispatch_def Let_def)


lemma drop_openshift_Inr:
  assumes "drop_openshift v = Inr anns"
  shows "anns = filter (\<lambda>kv. \<not> startswith (fst kv) ''openshift.io/'')
                  (case v of YMap xs \<Rightarrow> xs | _ \<Rightarrow> [])"
  using assms
  by (cases v) (auto simp: drop_openshift_def py_items_def py_or_def ebind_eq_Inr split: if_splits)

lemma pass_through_metadata:
  assumes "map_of kvs ''metadata'' = Some (YMap m)" and "pass_through (YMap kvs) = Inr d"
  shows "d = YMap (set_item kvs ''metadata''
          (YMap (let anns = filter (\<lambda>kv. \<not> startswith (fst kv) ''openshift.io/'')
                              (case map_of m ''annotations'' of Some (YMap xs) \<Rightarrow> xs | _ \<Rightarrow> [])
                 in if anns \<noteq> [] then set_item m ''annotations'' (YMap anns)
                    else pop_item m ''annotations'')))"
proof -
  from assms obtain anns where
    a: "drop_openshift (lookup m ''annotations'' YNull) = Inr anns" and
    d: "d = YMap (set_item kvs ''metadata''
                   (YMap (if anns \<noteq> [] then set_item m ''annotations'' (YMap anns)
                          else pop_item m ''annotations'')))"
    by (auto simp: pass_through_def lookup_def ebind_eq_Inr)
  have "(case lookup m ''annotations'' YNull of YMap xs \<Rightarrow> xs | _ \<Rightarrow> [])
      = (case map_of m ''annotations'' of Some (YMap xs) \<Rightarrow> xs | _ \<Rightarrow> [])"
    by (simp add: lookup_def split: option.splits)
  with drop_openshift_Inr[OF a] d show ?thesis by (simp add: Let_def)
qed

lemma doc_kinds_append: "doc_kinds (xs @ ys) = doc_kinds xs @ doc_kinds ys"
  by (induction xs rule: doc_kinds.induct) simp_all

lemma map_output_filename_first_match:
  assumes "list_all hashable (doc_kinds out_docs)"
  shows "map_output_filename nm out_docs = Inr
     (if substr_in ''deploymentconfig'' (lower nm)
          \<or> YStr ''DeploymentConfig'' \<in> set (doc_kinds out_docs) then ''deployment.yaml''
      else if substr_in ''route'' (lower nm)
          \<or> YStr ''Route'' \<in> set (doc_kinds out_docs) then ''ingress.yaml''
      else nm)"
  using assms by (simp add: map_output_filename_def kinds_in_output_def mappings_def)

lemma to_deployment_kind:
  assumes "to_deployment fmt dc reg pre = Inr d"
  shows "doc_kinds [d] = [YStr ''Deployment'']"
  using assms by (rule to_deployment_Inr) (simp add: lookup_def)

lemma to_ingress_kind:
  assumes "to_ingress fmt route dd ic ts = Inr d"
  shows "doc_kinds [d] = [YStr ''Ingress'']"
  using to_ingress_Inr[OF assms] by (auto simp: lookup_def)

lemma pass_through_kind:
  assumes "pass_through (YMap kvs) = Inr d"
  shows "doc_kinds [d] = [lookup kvs ''kind'' YNull]"
  using assms
  by (auto simp: pass_through_def ebind_eq_Inr lookup_def map_of_set_item
      split: yval.splits option.splits)

lemma dispatch_no_source_kind:
  assumes "dispatch fmt a (st, out) doc = Inr (st', out')" and "no_source_kind out"
  shows "no_source_kind out'"
proof (cases doc)
  case (YMap kvs)
  show ?thesis
  proof (cases "map_of kvs ''kind''")
    case None
    with assms YMap show ?thesis by (simp add: dispatch_def Let_def)
  next
    case (Some kind)
    consider "kind = YStr ''DeploymentConfig''" | "kind = YStr ''Route''"
      | "kind = YStr ''BuildConfig''"
      | "kind \<noteq> YStr ''DeploymentConfig''" "kind \<noteq> YStr ''Route''" "kind \<noteq> YStr ''BuildConfig''"
      by blast
    then show ?thesis
    proof cases
      case 1
      with assms YMap Some obtain d where "to_deployment fmt doc (opt_image_registry a) (opt_repo_prefix a) = Inr d"
        "out' = out @ [d]"
        by (auto simp: dispatch_def Let_def ebind_eq_Inr)
      with assms(2) to_deployment_kind show ?thesis
        by (simp add: no_source_kind_def doc_kinds_append)
    next
      case 2
      with assms YMap Some obtain d where
        "to_ingress fmt doc (opt_default_domain a) (opt_ingress_class a) (opt_tls_secret a) = Inr d"
        "out' = out @ [d]"
        by (auto simp: dispatch_def Let_def ebind_eq_Inr)
      with assms(2) to_ingress_kind show ?thesis
        by (simp add: no_source_kind_def doc_kinds_append)
    next
      case 3
      with assms YMap Some show ?thesis
        by (auto simp: dispatch_def Let_def ebind_eq_Inr)
    next
      case 4
      with assms YMap Some obtain d where "pass_through (YMap kvs) = Inr d" "out' = out @ [d]"
        by (auto simp: dispatch_other ebind_eq_Inr)
      with assms(2) pass_through_kind[of kvs d] Some 4 show ?thesis
        by (simp add: no_source_kind_def doc_kinds_append lookup_def)
    qed
  qed
qed (use assms in \<open>simp_all add: dispatch_def Let_def\<close>)

lemma dispatch_all_no_source_kind:
  "dispatch_all fmt a (st, out) docs = Inr (st', out') \<Longrightarrow> no_source_kind out
     \<Longrightarrow> no_source_kind out'"
proof (induction docs arbitrary: st out)
  case Nil
  then show ?case by simp
next
  case (Cons doc docs)
  then obtain st1 out1 where d: "dispatch fmt a (st, out) doc = Inr (st1, out1)"
    and r: "dispatch_all fmt a (st1, out1) docs = Inr (st', out')"
    by (auto simp: ebind_eq_Inr)
  from Cons.IH[OF r dispatch_no_source_kind[OF d Cons.prems(2)]] show ?case .
qed

text \<open>
  Claim C1 asks that a file whose converted output holds a document of the Deployment
  or Route family is named \<open>deployment.yaml\<close> or \<open>ingress.yaml\<close> even when its own name
  has no recognized pattern. The code does not do that. \<open>map_output_filename\<close> looks
  for the kinds \<open>DeploymentConfig\<close> and \<open>Route\<close> among the documents it is given
  (\<open>map_output_filename_first_match\<close> above is that rule, with its first-match order),
  but \<open>main\<close> gives it the converted documents, whose kinds are \<open>Deployment\<close> and
  \<open>Ingress\<close>, and passes a document through only when its kind is neither. So in a run
  the test on the kinds never holds and the name returned depends on the source name
  alone: a DeploymentConfig in \<open>app.yaml\<close> is written to \<open>app.yaml\<close>.
\<close>

theorem router_kind_test_never_fires:
  assumes "dispatch_all fmt a (st, []) docs = Inr (st', out_docs)"
    and "map_output_filename nm out_docs = Inr mapped"
  shows "mapped =
     (if substr_in ''deploymentconfig'' (lower nm) then ''deployment.yaml''
      else if substr_in ''route'' (lower nm) then ''ingress.yaml''
      else nm)"
proof -
  have "no_source_kind out_docs"
    using dispatch_all_no_source_kind[OF assms(1)] by (simp add: no_source_kind_def)
  with assms(2) show ?thesis
    by (auto simp: map_output_filename_def ebind_eq_Inr kinds_in_output_def mappings_def
          no_source_kind_def split: if_splits)
qed

theorem router_kind_test_never_fires_witness:
  "\<exists>st' d. dispatch_all (\<lambda>v. [])
      \<lparr>opt_image_registry = [], opt_repo_prefix = [], opt_default_domain = ''apps.example.com'',
        opt_ingress_class = ''nginx'', opt_tls_secret = []\<rparr>
      (initial, [])
      [YMap [(''kind'', YStr ''DeploymentConfig''), (''metadata'', YMap [(''name'', YStr ''web'')])]]
      = Inr (st', [d])
    \<and> get_path d [''kind''] = Some (YStr ''Deployment'')
    \<and> map_output_filename ''app.yaml'' [d] = Inr ''app.yaml''"
proof -
  let ?a = "\<lparr>opt_image_registry = [], opt_repo_prefix = [], opt_default_domain = ''apps.example.com'',
        opt_ingress_class = ''nginx'', opt_tls_secret = []\<rparr>"
  let ?docs = "[YMap [(''kind'', YStr ''DeploymentConfig''), (''metadata'', YMap [(''name'', YStr ''web'')])]]"
  obtain st' d where e: "dispatch_all (\<lambda>v. []) ?a (initial, []) ?docs = Inr (st', [d])"
    and k: "get_path d [''kind''] = Some (YStr ''Deployment'')"
    by (simp add: run_defs doc_defs)
  obtain mapped where m: "map_output_filename ''app.yaml'' [d] = Inr mapped"
    using e by (auto simp: run_defs doc_defs)
  from router_kind_test_never_fires[OF e m] have "mapped = ''app.yaml''"
    by (simp add: lower_def lower_char_def startswith_def)
  with e k m show ?thesis by auto
qed

subsection \<open>Deep copies\<close>

lemma memo_ids_Cons [simp]: "memo_ids ((a, y) # memo) = ids y \<union> memo_ids memo"
  by (simp add: memo_ids_def)

lemma memo_ids_Nil [simp]: "memo_ids [] = {}"
  by (simp add: memo_ids_def)

lemma map_of_memo_ids: "map_of memo a = Some y \<Longrightarrow> ids y \<subseteq> memo_ids memo"
  by (auto simp: memo_ids_def dest!: map_of_SomeD)

lemma ok_ids_refl: "ok_ids n memo n memo {}"
  by (simp add: ok_ids_def)

lemma ok_ids_hit: "map_of memo a = Some y \<Longrightarrow> ok_ids n memo n memo (ids y)"
  using map_of_memo_ids[of memo a y] by (auto simp: ok_ids_def)

lemma ok_ids_seq:
  "ok_ids n memo n1 memo1 A \<Longrightarrow> ok_ids n1 memo1 n2 memo2 B \<Longrightarrow> ok_ids n memo n2 memo2 (A \<union> B)"
  unfolding ok_ids_def by (auto simp: subset_iff)

lemma ok_ids_new:
  "ok_ids (Suc n) memo n' memo1 S \<Longrightarrow> ids y = insert n S \<Longrightarrow>
     ok_ids n memo n' ((a, y) # memo1) (ids y)"
  unfolding ok_ids_def by (auto simp: subset_iff)

lemma deepcopy_ok_ids:
  "\<forall>n' memo' v'. deepcopy n memo v = ((n', memo'), v') \<longrightarrow> ok_ids n memo n' memo' (ids v')"
  "\<forall>n' memo' ys. deepcopy_list n memo xs = ((n', memo'), ys) \<longrightarrow>
      ok_ids n memo n' memo' (\<Union>y\<in>set ys. ids y)"
  "\<forall>n' memo' kvs'. deepcopy_items n memo kvs = ((n', memo'), kvs') \<longrightarrow>
      ok_ids n memo n' memo' (\<Union>kv\<in>set kvs'. ids (snd kv))"
proof (induction n memo v and n memo xs and n memo kvs
    rule: deepcopy_deepcopy_list_deepcopy_items.induct)
  case (1 n memo a xs)
  show ?case
  proof (cases "map_of memo a")
    case None
    show ?thesis
    proof (intro allI impI)
      fix n' memo' v'
      assume "deepcopy n memo (TList a xs) = ((n', memo'), v')"
      with None obtain ys memo1 where
        r: "deepcopy_list (Suc n) memo xs = ((n', memo1), ys)" and
        m: "memo' = (a, TList n ys) # memo1" and v: "v' = TList n ys"
        by (cases "deepcopy_list (Suc n) memo xs") auto
      from "1.IH"[OF None] r have "ok_ids (Suc n) memo n' memo1 (\<Union>y\<in>set ys. ids y)"
        by blast
      then show "ok_ids n memo n' memo' (ids v')"
        unfolding m v by (rule ok_ids_new) simp
    qed
  next
    case (Some y)
    then show ?thesis by (simp add: ok_ids_hit)
  qed
next
  case (2 n memo a kvs)
  show ?case
  proof (cases "map_of memo a")
    case None
    show ?thesis
    proof (intro allI impI)
      fix n' memo' v'
      assume "deepcopy n memo (TMap a kvs) = ((n', memo'), v')"
      with None obtain kvs1 memo1 where
        r: "deepcopy_items (Suc n) memo kvs = ((n', memo1), kvs1)" and
        m: "memo' = (a, TMap n kvs1) # memo1" and v: "v' = TMap n kvs1"
        by (cases "deepcopy_items (Suc n) memo kvs") auto
      from "2.IH"[OF None] r have "ok_ids (Suc n) memo n' memo1 (\<Union>kv\<in>set kvs1. ids (snd kv))"
        by blast
      then show "ok_ids n memo n' memo' (ids v')"
        unfolding m v by (rule ok_ids_new) simp
    qed
  next
    case (Some y)
    then show ?thesis by (simp add: ok_ids_hit)
  qed
next
  case (5 n memo x xs)
  show ?case
  proof (intro allI impI)
    fix n' memo' ys
    assume p: "deepcopy_list n memo (x # xs) = ((n', memo'), ys)"
    obtain n1 memo1 y where a: "deepcopy n memo x = ((n1, memo1), y)"
      by (metis prod.exhaust)
    obtain n2 memo2 ys1 where b: "deepcopy_list n1 memo1 xs = ((n2, memo2), ys1)"
      by (metis prod.exhaust)
    from p a b have e: "n' = n2" "memo' = memo2" "ys = y # ys1" by auto
    from "5.IH"(1) a have 1: "ok_ids n memo n1 memo1 (ids y)" by blast
    from "5.IH"(2)[OF a[symmetric] refl] b have 2: "ok_ids n1 memo1 n2 memo2 (\<Union>y\<in>set ys1. ids y)"
      by blast
    from ok_ids_seq[OF 1 2] show "ok_ids n memo n' memo' (\<Union>y\<in>set ys. ids y)"
      unfolding e by simp
  qed
next
  case (7 n memo kv kvs)
  show ?case
  proof (intro allI impI)
    fix n' memo' kvs'
    assume p: "deepcopy_items n memo (kv # kvs) = ((n', memo'), kvs')"
    obtain n1 memo1 y where a: "deepcopy n memo (snd kv) = ((n1, memo1), y)"
      by (metis prod.exhaust)
    obtain n2 memo2 kvs1 where b: "deepcopy_items n1 memo1 kvs = ((n2, memo2), kvs1)"
      by (metis prod.exhaust)
    from p a b have e: "n' = n2" "memo' = memo2" "kvs' = (fst kv, y) # kvs1" by auto
    from "7.IH"(1) a have 1: "ok_ids n memo n1 memo1 (ids y)" by blast
    from "7.IH"(2)[OF a[symmetric] refl] b
    have 2: "ok_ids n1 memo1 n2 memo2 (\<Union>kv\<in>set kvs1. ids (snd kv))"
      by blast
    from ok_ids_seq[OF 1 2] show "ok_ids n memo n' memo' (\<Union>kv\<in>set kvs'. ids (snd kv))"
      unfolding e by simp
  qed
qed (simp_all add: ok_ids_refl)

lemma deepcopy_fresh:
  assumes "deepcopy n [] v = ((n', memo'), v')"
  shows "n \<le> n' \<and> ids v' \<subseteq> {n..<n'}"
  using deepcopy_ok_ids(1)[of n "[]" v] assms by (auto simp: ok_ids_def)

lemma memo_nodes_simps [simp]:
  "memo_nodes [] = {}" "memo_nodes ((a, y) # memo) = nodes y \<union> memo_nodes memo"
  by (simp_all add: memo_nodes_def)

lemma nodes_ids: "x \<in> nodes v \<Longrightarrow> ids x \<subseteq> ids v"
  by (induction v rule: nodes.induct) (auto 4 3)

lemma nodes_oid: "x \<in> nodes v \<Longrightarrow> \<exists>i. oid x = Some i \<and> i \<in> ids x"
  by (induction v rule: nodes.induct) auto

lemma nodes_trans: "x \<in> nodes v \<Longrightarrow> nodes x \<subseteq> nodes v"
  by (induction v rule: nodes.induct) (auto 4 3)

lemma memo_nodes_oid:
  assumes "x \<in> memo_nodes memo" and "oid x = Some i"
  shows "i \<in> memo_ids memo"
proof -
  from assms(1) obtain e where e: "e \<in> set memo" "x \<in> nodes (snd e)"
    by (auto simp: memo_nodes_def)
  from nodes_oid[OF e(2)] assms(2) have "i \<in> ids x" by auto
  with nodes_ids[OF e(2)] e(1) show ?thesis by (auto simp: memo_ids_def)
qed

lemma map_of_memo_nodes: "map_of memo a = Some y \<Longrightarrow> nodes y \<subseteq> memo_nodes memo"
  by (auto simp: memo_nodes_def dest!: map_of_SomeD)

lemma step_refl: "step n memo n memo {}"
  by (simp add: step_def)

lemma step_hit: "map_of memo a = Some y \<Longrightarrow> step n memo n memo (nodes y)"
  using map_of_memo_nodes[of memo a y] by (simp add: step_def)

lemma step_seq:
  "step n memo n1 memo1 A \<Longrightarrow> step n1 memo1 n2 memo2 B \<Longrightarrow> step n memo n2 memo2 (A \<union> B)"
  unfolding step_def by blast

lemma step_new:
  assumes s: "step (Suc n) memo n' memo1 S"
    and o: "ok_ids (Suc n) memo n' memo1 T"
    and y: "nodes y = insert y S" "oid y = Some n" "ids y = insert n T"
  shows "step n memo n' ((a, y) # memo1) (nodes y)"
  unfolding step_def
proof (intro impI conjI)
  assume g: "good n memo"
  then have "good (Suc n) memo" by (auto simp: good_def)
  with s have g1: "good n' memo1" and S: "S \<subseteq> memo_nodes memo1"
    and mono: "memo_nodes memo \<subseteq> memo_nodes memo1"
    by (auto simp: step_def)
  from o g have lt: "Suc n \<le> n'" and T: "T \<subseteq> {..<n'}" and nfresh: "n \<notin> memo_ids memo1"
    and T': "n \<notin> T"
    by (fastforce simp: ok_ids_def good_def subset_iff)+
  have "memo_ids ((a, y) # memo1) \<subseteq> {..<n'}"
    using g1 lt T y(3) by (auto simp: good_def)
  moreover have "consistent_on (memo_nodes ((a, y) # memo1))"
    unfolding consistent_on_def
  proof (intro allI impI)
    fix u w
    assume u: "u \<in> memo_nodes ((a, y) # memo1)" and w: "w \<in> memo_nodes ((a, y) # memo1)"
      and e: "oid u = oid w"
    have in1: "v = y \<or> v \<in> memo_nodes memo1" if "v \<in> memo_nodes ((a, y) # memo1)" for v
      using that S y(1) by auto
    have ne: "oid v \<noteq> Some n" if "v \<in> memo_nodes memo1" for v
      using memo_nodes_oid[OF that] nfresh by auto
    from in1[OF u] in1[OF w] show "u = w"
    proof (elim disjE)
      assume "u \<in> memo_nodes memo1" "w \<in> memo_nodes memo1"
      with g1 e show ?thesis by (auto simp: good_def consistent_on_def)
    qed (use e y(2) ne in auto)
  qed
  ultimately show "good n' ((a, y) # memo1)" by (simp add: good_def)
  show "nodes y \<subseteq> memo_nodes ((a, y) # memo1)" by simp
  show "memo_nodes memo \<subseteq> memo_nodes ((a, y) # memo1)" using mono by auto
qed

lemma deepcopy_step:
  "\<forall>n' memo' v'. deepcopy n memo v = ((n', memo'), v') \<longrightarrow> step n memo n' memo' (nodes v')"
  "\<forall>n' memo' ys. deepcopy_list n memo xs = ((n', memo'), ys) \<longrightarrow>
      step n memo n' memo' (\<Union>y\<in>set ys. nodes y)"
  "\<forall>n' memo' kvs'. deepcopy_items n memo kvs = ((n', memo'), kvs') \<longrightarrow>
      step n memo n' memo' (\<Union>kv\<in>set kvs'. nodes (snd kv))"
proof (induction n memo v and n memo xs and n memo kvs
    rule: deepcopy_deepcopy_list_deepcopy_items.induct)
  case (1 n memo a xs)
  show ?case
  proof (cases "map_of memo a")
    case None
    show ?thesis
    proof (intro allI impI)
      fix n' memo' v'
      assume "deepcopy n memo (TList a xs) = ((n', memo'), v')"
      with None obtain ys memo1 where
        r: "deepcopy_list (Suc n) memo xs = ((n', memo1), ys)" and
        m: "memo' = (a, TList n ys) # memo1" and v: "v' = TList n ys"
        by (cases "deepcopy_list (Suc n) memo xs") auto
      from "1.IH"[OF None] r have s: "step (Suc n) memo n' memo1 (\<Union>y\<in>set ys. nodes y)"
        by blast
      from deepcopy_ok_ids(2) r have o: "ok_ids (Suc n) memo n' memo1 (\<Union>y\<in>set ys. ids y)"
        by blast
      show "step n memo n' memo' (nodes v')"
        unfolding m v by (rule step_new[OF s o]) simp_all
    qed
  next
    case (Some y)
    then show ?thesis by (simp add: step_hit)
  qed
next
  case (2 n memo a kvs)
  show ?case
  proof (cases "map_of memo a")
    case None
    show ?thesis
    proof (intro allI impI)
      fix n' memo' v'
      assume "deepcopy n memo (TMap a kvs) = ((n', memo'), v')"
      with None obtain kvs1 memo1 where
        r: "deepcopy_items (Suc n) memo kvs = ((n', memo1), kvs1)" and
        m: "memo' = (a, TMap n kvs1) # memo1" and v: "v' = TMap n kvs1"
        by (cases "deepcopy_items (Suc n) memo kvs") auto
      from "2.IH"[OF None] r
      have s: "step (Suc n) memo n' memo1 (\<Union>kv\<in>set kvs1. nodes (snd kv))"
        by blast
      from deepcopy_ok_ids(3) r
      have o: "ok_ids (Suc n) memo n' memo1 (\<Union>kv\<in>set kvs1. ids (snd kv))"
        by blast
      show "step n memo n' memo' (nodes v')"
        unfolding m v by (rule step_new[OF s o]) simp_all
    qed
  next
    case (Some y)
    then show ?thesis by (simp add: step_hit)
  qed
next
  case (5 n memo x xs)
  show ?case
  proof (intro allI impI)
    fix n' memo' ys
    assume p: "deepcopy_list n memo (x # xs) = ((n', memo'), ys)"
    obtain n1 memo1 y where a: "deepcopy n memo x = ((n1, memo1), y)"
      by (metis prod.exhaust)
    obtain n2 memo2 ys1 where b: "deepcopy_list n1 memo1 xs = ((n2, memo2), ys1)"
      by (metis prod.exhaust)
    from p a b have e: "n' = n2" "memo' = memo2" "ys = y # ys1" by auto
    from "5.IH"(1) a have 1: "step n memo n1 memo1 (nodes y)" by blast
    from "5.IH"(2)[OF a[symmetric] refl] b
    have 2: "step n1 memo1 n2 memo2 (\<Union>y\<in>set ys1. nodes y)"
      by blast
    from step_seq[OF 1 2] show "step n memo n' memo' (\<Union>y\<in>set ys. nodes y)"
      unfolding e by simp
  qed
next
  case (7 n memo kv kvs)
  show ?case
  proof (intro allI impI)
    fix n' memo' kvs'
    assume p: "deepcopy_items n memo (kv # kvs) = ((n', memo'), kvs')"
    obtain n1 memo1 y where a: "deepcopy n memo (snd kv) = ((n1, memo1), y)"
      by (metis prod.exhaust)
    obtain n2 memo2 kvs1 where b: "deepcopy_items n1 memo1 kvs = ((n2, memo2), kvs1)"
      by (metis prod.exhaust)
    from p a b have e: "n' = n2" "memo' = memo2" "kvs' = (fst kv, y) # kvs1" by auto
    from "7.IH"(1) a have 1: "step n memo n1 memo1 (nodes y)" by blast
    from "7.IH"(2)[OF a[symmetric] refl] b
    have 2: "step n1 memo1 n2 memo2 (\<Union>kv\<in>set kvs1. nodes (snd kv))"
      by blast
    from step_seq[OF 1 2] show "step n memo n' memo' (\<Union>kv\<in>set kvs'. nodes (snd kv))"
      unfolding e by simp
  qed
qed (simp_all add: step_refl)

lemma consistent_on_subset: "consistent_on S \<Longrightarrow> T \<subseteq> S \<Longrightarrow> consistent_on T"
  unfolding consistent_on_def by blast

lemma deepcopy_consistent:
  assumes "deepcopy n [] v = ((n', memo'), v')"
  shows "consistent v'"
proof -
  have "good n []" by (simp add: good_def consistent_on_def)
  with deepcopy_step(1)[of n "[]" v] assms
  have "good n' memo'" "nodes v' \<subseteq> memo_nodes memo'"
    by (auto simp: step_def)
  then show ?thesis
    unfolding consistent_def good_def by (blast intro: consistent_on_subset)
qed

lemma einv_new:
  assumes "einv U memo1" and "consistent_on U" and "x0 \<in> U" and "oid x0 = Some a"
    and "erase y = erase x0"
  shows "einv U ((a, y) # memo1)"
  using assms unfolding einv_def consistent_on_def
  by (metis map_of_Cons_code(2) option.inject)

lemma deepcopy_erase:
  assumes U: "consistent_on U"
  shows
  "\<forall>n' memo' v'. nodes v \<subseteq> U \<longrightarrow> einv U memo \<longrightarrow> deepcopy n memo v = ((n', memo'), v')
      \<longrightarrow> erase v' = erase v \<and> einv U memo'"
  "\<forall>n' memo' ys. (\<Union>x\<in>set xs. nodes x) \<subseteq> U \<longrightarrow> einv U memo
      \<longrightarrow> deepcopy_list n memo xs = ((n', memo'), ys)
      \<longrightarrow> map erase ys = map erase xs \<and> einv U memo'"
  "\<forall>n' memo' kvs'. (\<Union>kv\<in>set kvs. nodes (snd kv)) \<subseteq> U \<longrightarrow> einv U memo
      \<longrightarrow> deepcopy_items n memo kvs = ((n', memo'), kvs')
      \<longrightarrow> map (\<lambda>kv. (fst kv, erase (snd kv))) kvs' = map (\<lambda>kv. (fst kv, erase (snd kv))) kvs
          \<and> einv U memo'"
proof (induction n memo v and n memo xs and n memo kvs
    rule: deepcopy_deepcopy_list_deepcopy_items.induct)
  case (1 n memo a xs)
  show ?case
  proof (intro allI impI)
    fix n' memo' v'
    assume sub: "nodes (TList a xs) \<subseteq> U" and inv: "einv U memo"
      and p: "deepcopy n memo (TList a xs) = ((n', memo'), v')"
    show "erase v' = erase (TList a xs) \<and> einv U memo'"
    proof (cases "map_of memo a")
      case None
      with p obtain ys memo1 where
        r: "deepcopy_list (Suc n) memo xs = ((n', memo1), ys)" and
        m: "memo' = (a, TList n ys) # memo1" and v: "v' = TList n ys"
        by (cases "deepcopy_list (Suc n) memo xs") auto
      from sub have sub': "(\<Union>x\<in>set xs. nodes x) \<subseteq> U" by auto
      from "1.IH"[OF None] sub' inv r have e: "map erase ys = map erase xs" and i: "einv U memo1"
        by blast+
      have "einv U memo'"
        unfolding m by (rule einv_new[OF i U, of "TList a xs"]) (use sub e in auto)
      with e v show ?thesis by simp
    next
      case (Some y)
      with p have "v' = y" "memo' = memo" by auto
      moreover from inv Some sub have "erase y = erase (TList a xs)"
        unfolding einv_def by (metis insert_subset nodes.simps(1) oid.simps(1))
      ultimately show ?thesis using inv by simp
    qed
  qed
next
  case (2 n memo a kvs)
  show ?case
  proof (intro allI impI)
    fix n' memo' v'
    assume sub: "nodes (TMap a kvs) \<subseteq> U" and inv: "einv U memo"
      and p: "deepcopy n memo (TMap a kvs) = ((n', memo'), v')"
    show "erase v' = erase (TMap a kvs) \<and> einv U memo'"
    proof (cases "map_of memo a")
      case None
      with p obtain kvs1 memo1 where
        r: "deepcopy_items (Suc n) memo kvs = ((n', memo1), kvs1)" and
        m: "memo' = (a, TMap n kvs1) # memo1" and v: "v' = TMap n kvs1"
        by (cases "deepcopy_items (Suc n) memo kvs") auto
      from sub have sub': "(\<Union>kv\<in>set kvs. nodes (snd kv)) \<subseteq> U" by auto
      from "2.IH"[OF None] sub' inv r
      have e: "map (\<lambda>kv. (fst kv, erase (snd kv))) kvs1 = map (\<lambda>kv. (fst kv, erase (snd kv))) kvs"
        and i: "einv U memo1"
        by blast+
      have "einv U memo'"
        unfolding m by (rule einv_new[OF i U, of "TMap a kvs"]) (use sub e in auto)
      with e v show ?thesis by simp
    next
      case (Some y)
      with p have "v' = y" "memo' = memo" by auto
      moreover from inv Some sub have "erase y = erase (TMap a kvs)"
        unfolding einv_def by (metis insert_subset nodes.simps(2) oid.simps(2))
      ultimately show ?thesis using inv by simp
    qed
  qed
next
  case (5 n memo x xs)
  show ?case
  proof (intro allI impI)
    fix n' memo' ys
    assume sub: "(\<Union>x\<in>set (x # xs). nodes x) \<subseteq> U" and inv: "einv U memo"
      and p: "deepcopy_list n memo (x # xs) = ((n', memo'), ys)"
    obtain n1 memo1 y where a: "deepcopy n memo x = ((n1, memo1), y)"
      by (metis prod.exhaust)
    obtain n2 memo2 ys1 where b: "deepcopy_list n1 memo1 xs = ((n2, memo2), ys1)"
      by (metis prod.exhaust)
    from p a b have e: "n' = n2" "memo' = memo2" "ys = y # ys1" by auto
    from sub have s1: "nodes x \<subseteq> U" and s2: "(\<Union>x\<in>set xs. nodes x) \<subseteq> U" by auto
    from "5.IH"(1) s1 inv a have 1: "erase y = erase x" "einv U memo1" by blast+
    from "5.IH"(2)[OF a[symmetric] refl] s2 1(2) b
    have 2: "map erase ys1 = map erase xs" "einv U memo2" by blast+
    from 1 2 show "map erase ys = map erase (x # xs) \<and> einv U memo'"
      unfolding e by simp
  qed
next
  case (7 n memo kv kvs)
  show ?case
  proof (intro allI impI)
    fix n' memo' kvs'
    assume sub: "(\<Union>kv\<in>set (kv # kvs). nodes (snd kv)) \<subseteq> U" and inv: "einv U memo"
      and p: "deepcopy_items n memo (kv # kvs) = ((n', memo'), kvs')"
    obtain n1 memo1 y where a: "deepcopy n memo (snd kv) = ((n1, memo1), y)"
      by (metis prod.exhaust)
    obtain n2 memo2 kvs1 where b: "deepcopy_items n1 memo1 kvs = ((n2, memo2), kvs1)"
      by (metis prod.exhaust)
    from p a b have e: "n' = n2" "memo' = memo2" "kvs' = (fst kv, y) # kvs1" by auto
    from sub have s1: "nodes (snd kv) \<subseteq> U" and s2: "(\<Union>kv\<in>set kvs. nodes (snd kv)) \<subseteq> U"
      by auto
    from "7.IH"(1) s1 inv a have 1: "erase y = erase (snd kv)" "einv U memo1" by blast+
    from "7.IH"(2)[OF a[symmetric] refl] s2 1(2) b
    have 2: "map (\<lambda>kv. (fst kv, erase (snd kv))) kvs1 = map (\<lambda>kv. (fst kv, erase (snd kv))) kvs"
      "einv U memo2" by blast+
    from 1 2 show "map (\<lambda>kv. (fst kv, erase (snd kv))) kvs'
        = map (\<lambda>kv. (fst kv, erase (snd kv))) (kv # kvs) \<and> einv U memo'"
      unfolding e by simp
  qed
qed auto

lemma deepcopy_content:
  assumes "consistent v" and "deepcopy n [] v = ((n', memo'), v')"
  shows "erase v' = erase v"
  using deepcopy_erase(1)[of "nodes v" v "[]" n] assms
  by (auto simp: consistent_def einv_def)

subsection \<open>Updates in place\<close>

text \<open>
  The functions with identities return what the value model returns, on the content:
  \<open>erase\<close> commutes with the operations on dicts.
\<close>

lemma abind_eq_Inr:
  "abind m f n = Inr r \<longleftrightarrow> (\<exists>x n1. m n = Inr (x, n1) \<and> f x n1 = Inr r)"
  by (cases "m n") (auto simp: abind_def)

lemma aret_eq_Inr: "aret x n = Inr r \<longleftrightarrow> r = (x, n)"
  by (auto simp: aret_def)

lemma araise_eq_Inr: "araise e n = Inr r \<longleftrightarrow> False"
  by (simp add: araise_def)

lemma alift_eq_Inr: "alift e n = Inr r \<longleftrightarrow> (\<exists>x. e = Inr x \<and> r = (x, n))"
  by (cases e) (auto simp: alift_def)

lemma new_dict_eq_Inr: "new_dict kvs n = Inr r \<longleftrightarrow> r = (TMap n kvs, Suc n)"
  by (auto simp: new_dict_def)

lemma new_list_eq_Inr: "new_list xs n = Inr r \<longleftrightarrow> r = (TList n xs, Suc n)"
  by (auto simp: new_list_def)

lemma copy_deepcopy_eq_Inr:
  "copy_deepcopy v n = Inr (x, n') \<longleftrightarrow> (\<exists>memo'. deepcopy n [] v = ((n', memo'), x))"
  by (cases "deepcopy n [] v") (auto simp: copy_deepcopy_def)

lemmas alloc_eqs =
  abind_eq_Inr aret_eq_Inr araise_eq_Inr alift_eq_Inr new_dict_eq_Inr new_list_eq_Inr

lemma map_of_erase:
  "map_of (map (\<lambda>kv. (fst kv, erase (snd kv))) kvs) k = map_option erase (map_of kvs k)"
  by (induction kvs) auto

lemma lookup_erase:
  "lookup (map (\<lambda>kv. (fst kv, erase (snd kv))) kvs) k (erase d) = erase (lookup kvs k d)"
  by (simp add: lookup_def map_of_erase split: option.splits)


lemma setdefault_erase:
  "map (\<lambda>kv. (fst kv, erase (snd kv))) (setdefault kvs k v)
     = setdefault (map (\<lambda>kv. (fst kv, erase (snd kv))) kvs) k (erase v)"
  by (simp add: setdefault_def map_of_erase split: option.splits)


lemma t_get_erase:
  "t_get d k dflt = Inr v \<Longrightarrow> py_get (erase d) k (erase dflt) = Inr (erase v)"
  by (cases d) (auto simp: t_get_def py_get_def lookup_erase)

lemma t_or_erase: "erase (t_or a b) = py_or (erase a) (erase b)"
  by (simp add: t_or_def py_or_def)

lemma t_or_new_dict_Inr:
  assumes "t_or_new_dict v n = Inr (x, n')"
  shows "erase x = py_or (erase v) (YMap [])" and "n \<le> n'"
    and "x = v \<or> x = TMap n []"
  using assms by (auto simp: t_or_new_dict_def py_or_def alloc_eqs split: if_splits)

lemma t_get_new_dict_Inr:
  assumes "t_get_new_dict d k n = Inr (x, n')"
  shows "py_get (erase d) k (YMap []) = Inr (erase x)" and "n' = Suc n"
    and "t_get d k (TMap n []) = Inr x"
  using assms t_get_erase[of d k "TMap n []" x] by (auto simp: t_get_new_dict_def alloc_eqs)

lemma norm_labels_t_Inr:
  assumes "norm_labels_t v n = Inr (x, n')"
  shows "norm_labels (erase v) = Inr (erase (fst x))" and "n \<le> n'"
proof -
  from assms obtain meta n1 where
    a: "t_or_new_dict v n = Inr (meta, n1)" and
    b: "(case meta of
           TMap a kvs \<Rightarrow>
             abind (new_dict []) (\<lambda>e.
               aret (TMap a (setdefault kvs ''labels'' e),
                     update_obj a (\<lambda>entries. setdefault entries ''labels'' e)))
         | _ \<Rightarrow> araise AttributeError) n1 = Inr (x, n')"
    by (auto simp: norm_labels_t_def alloc_eqs)
  from b obtain i kvs where m: "meta = TMap i kvs"
    and x: "fst x = TMap i (setdefault kvs ''labels'' (TMap n1 []))" and n': "n' = Suc n1"
    by (cases meta) (auto simp: alloc_eqs)
  from t_or_new_dict_Inr(1)[OF a] m
  have e: "py_or (erase v) (YMap []) = YMap (map (\<lambda>kv. (fst kv, erase (snd kv))) kvs)"
    by simp
  show "norm_labels (erase v) = Inr (erase (fst x))"
    by (simp add: norm_labels_def e x setdefault_erase[of _ _ "TMap n1 []", simplified])
  show "n \<le> n'"
    using t_or_new_dict_Inr(2)[OF a] n' by simp
qed



lemma size_elem: "x \<in> set xs \<Longrightarrow> size x < size (TList a xs)"
  by (induction xs) auto

lemma size_entry: "kv \<in> set kvs \<Longrightarrow> size (snd kv) < size (TMap a kvs)"
  by (induction kvs) auto

lemma nodes_size: "x \<in> nodes v \<Longrightarrow> size x \<le> size v"
proof (induction v rule: nodes.induct)
  case (1 a xs)
  then show ?case using size_elem[of _ xs a] by fastforce
next
  case (2 a kvs)
  then show ?case using size_entry[of _ kvs a] by fastforce
qed auto













end
